theory Spec2Isabelle
  imports Complex_Main "HOL-Library.Char_ord" "HOL-Library.List_Lexorder" "HOL-Library.Log_Nat"
begin

section \<open>The websocket module: fan-out of typed messages\<close>

text \<open>
  The module keeps one variable, \<open>wssInstance\<close>, that is \<open>null\<close> until
  \<open>setWebSocketServer\<close> stores a server in it. A server is its collection of clients,
  visited by \<open>forEach\<close> in insertion order, so it is a list here.

  A client is a socket of the transport layer. The module reads its \<open>readyState\<close> and
  calls its \<open>send\<close>, which either hands the data to the transport or throws. The record
  keeps what the transport saw: how often \<open>send\<close> was called on the socket and which
  messages it accepted.
\<close>

record rankingChange =
  address :: string
  oldRank :: int
  newRank :: int
  dnaScore :: int
  tier :: string

text \<open>
  Ranks are whole numbers, and the program holds them in doubles. The record keeps the
  whole number a rank denotes. A subtraction of two such numbers is exact in the program
  only while the difference fits the 53 bits of a double's significand; beyond that the
  result is rounded to the nearest double, ties going to the even significand, and a
  result of magnitude \<open>2 ^ 1024\<close> or more is an infinity. NaN, infinities and fractions
  as inputs are not modelled.
\<close>

datatype jsnumber = Finite int | PosInfinity | NegInfinity

definition roundToDouble :: "int \<Rightarrow> jsnumber" where
  "roundToDouble x =
     (let a = \<bar>x\<bar> in
      if a < 2 ^ 53 then Finite x
      else
        (let q = 2 ^ (nat (bitlen a) - 53);
             m = a div q;
             r = a mod q;
             m' = (if q div 2 < r \<or> (r = q div 2 \<and> odd m) then m + 1 else m);
             y = m' * q
         in if 2 ^ 1024 \<le> y then (if x < 0 then NegInfinity else PosInfinity)
            else Finite (if x < 0 then - y else y)))"

definition jsSubtract :: "int \<Rightarrow> int \<Rightarrow> jsnumber" where
  "jsSubtract a b = roundToDouble (a - b)"

record rankingChangeOut = rankingChange +
  rankChange :: jsnumber

record leader =
  l_address :: string
  ens_name :: "string option"
  dna_score :: int
  l_tier :: string
  total_positions :: int
  total_volume_usd :: real

datatype message =
    LeaderboardUpdate string "rankingChange option" int
  | RankingChanges "rankingChangeOut list" int
  | NewLeader string "string option" int string int real int
  | UserUpdate string int string int
  | UserAction string string "string option" "real option" int

record client =
  cid :: nat
  readyState :: nat
  sendThrows :: bool
  sendCalls :: nat
  delivered :: "message list"

datatype send_result = SendReturned | SendThrew

definition send :: "client \<Rightarrow> message \<Rightarrow> send_result \<times> client" where
  "send c m =
     (if sendThrows c then (SendThrew, c\<lparr>sendCalls := Suc (sendCalls c)\<rparr>)
      else (SendReturned, c\<lparr>sendCalls := Suc (sendCalls c), delivered := delivered c @ [m]\<rparr>))"

record counts =
  sentCount :: nat
  errorCount :: nat

record wsmodule =
  wssInstance :: "client list option"

definition setWebSocketServer :: "wsmodule \<Rightarrow> client list \<Rightarrow> wsmodule" where
  "setWebSocketServer w wss = w\<lparr>wssInstance := Some wss\<rparr>"

text \<open>
  The body of \<open>clients.forEach\<close>: a client that is not open is skipped, an open one gets
  one call of \<open>send\<close> inside its own \<open>try\<close>, counted as sent when it returns and as an
  error when it throws. The loop goes on to the next client in every case.
\<close>

fun forEach_send :: "message \<Rightarrow> client list \<Rightarrow> counts \<Rightarrow> counts \<times> client list" where
  "forEach_send m [] k = (k, [])"
| "forEach_send m (c # cs) k =
     (if readyState c = 1 then
        (case send c m of
           (SendReturned, c') \<Rightarrow>
             (case forEach_send m cs (k\<lparr>sentCount := sentCount k + 1\<rparr>) of
                (k', cs') \<Rightarrow> (k', c' # cs'))
         | (SendThrew, c') \<Rightarrow>
             (case forEach_send m cs (k\<lparr>errorCount := errorCount k + 1\<rparr>) of
                (k', cs') \<Rightarrow> (k', c' # cs')))
      else
        (case forEach_send m cs k of (k', cs') \<Rightarrow> (k', c # cs')))"

definition broadcastToAll :: "wsmodule \<Rightarrow> message \<Rightarrow> counts \<times> wsmodule" where
  "broadcastToAll w m =
     (case wssInstance w of
        None \<Rightarrow> (\<lparr>sentCount = 0, errorCount = 0\<rparr>, w)
      | Some clients \<Rightarrow>
          (case forEach_send m clients \<lparr>sentCount = 0, errorCount = 0\<rparr> of
             (k, clients') \<Rightarrow> (k, w\<lparr>wssInstance := Some clients'\<rparr>)))"

definition broadcastLeaderboardUpdate ::
  "wsmodule \<Rightarrow> string \<Rightarrow> rankingChange option \<Rightarrow> int \<Rightarrow> counts \<times> wsmodule" where
  "broadcastLeaderboardUpdate w type data now = broadcastToAll w (LeaderboardUpdate type data now)"

definition withRankChange :: "rankingChange \<Rightarrow> rankingChangeOut" where
  "withRankChange c = rankingChange.extend c (rankingChangeOut.fields (jsSubtract (oldRank c) (newRank c)))"

definition rankingChangesMessage :: "rankingChange list \<Rightarrow> int \<Rightarrow> message" where
  "rankingChangesMessage changes now = RankingChanges (map withRankChange changes) now"

definition broadcastRankingChanges ::
  "wsmodule \<Rightarrow> rankingChange list \<Rightarrow> int \<Rightarrow> counts \<times> wsmodule" where
  "broadcastRankingChanges w changes now = broadcastToAll w (rankingChangesMessage changes now)"

definition broadcastNewLeader :: "wsmodule \<Rightarrow> leader \<Rightarrow> int \<Rightarrow> counts \<times> wsmodule" where
  "broadcastNewLeader w ld now =
     broadcastToAll w
       (NewLeader (l_address ld) (ens_name ld) (dna_score ld) (l_tier ld)
          (total_positions ld) (total_volume_usd ld) now)"

record userUpdatePayload =
  uu_address :: string
  uu_dnaScore :: int
  uu_tier :: string
  uu_timestamp :: int

definition broadcastUserUpdate :: "wsmodule \<Rightarrow> userUpdatePayload \<Rightarrow> counts \<times> wsmodule" where
  "broadcastUserUpdate w p =
     broadcastToAll w (UserUpdate (uu_address p) (uu_dnaScore p) (uu_tier p) (uu_timestamp p))"

record userActionPayload =
  act_address :: string
  actionType :: string
  poolId :: "string option"
  amountUsd :: "real option"
  act_timestamp :: int

definition broadcastUserAction :: "wsmodule \<Rightarrow> userActionPayload \<Rightarrow> counts \<times> wsmodule" where
  "broadcastUserAction w p =
     broadcastToAll w
       (UserAction (act_address p) (actionType p) (poolId p) (amountUsd p) (act_timestamp p))"

subsection \<open>The patch file for the compiled websocket module\<close>

text \<open>
  \<open>websocket-leaderboard-FIXED.js\<close> runs the same loop over the module's \<open>clients\<close>
  collection, with no server variable to test. Its \<open>broadcastLeaderboardUpdate\<close> returns
  both counters; its \<open>broadcastRankingChanges\<close> copies the five fields by hand, counts
  only the successful sends for its log line and returns nothing. The log lines are not
  modelled.
\<close>

definition broadcastLeaderboardUpdate_FIXED ::
  "client list \<Rightarrow> string \<Rightarrow> rankingChange option \<Rightarrow> int \<Rightarrow> counts \<times> client list" where
  "broadcastLeaderboardUpdate_FIXED clients type data now =
     forEach_send (LeaderboardUpdate type data now) clients \<lparr>sentCount = 0, errorCount = 0\<rparr>"

definition rankingChangesMessage_FIXED :: "rankingChange list \<Rightarrow> int \<Rightarrow> message" where
  "rankingChangesMessage_FIXED changes now =
     RankingChanges
       (map (\<lambda>change. \<lparr>address = address change, oldRank = oldRank change,
                        newRank = newRank change, dnaScore = dnaScore change,
                        tier = tier change,
                        rankChange = jsSubtract (oldRank change) (newRank change)\<rparr>) changes)
       now"

definition broadcastRankingChanges_FIXED :: "client list \<Rightarrow> rankingChange list \<Rightarrow> int \<Rightarrow> client list" where
  "broadcastRankingChanges_FIXED clients changes now =
     snd (forEach_send (rankingChangesMessage_FIXED changes now) clients
            \<lparr>sentCount = 0, errorCount = 0\<rparr>)"

definition initialModule :: wsmodule where
  "initialModule = \<lparr>wssInstance = None\<rparr>"

definition attempt :: "message \<Rightarrow> client \<Rightarrow> client" where
  "attempt m c = (if readyState c = 1 then snd (send c m) else c)"

definition isOpen :: "client \<Rightarrow> bool" where
  "isOpen c = (readyState c = 1)"

definition connectedClients :: "wsmodule \<Rightarrow> client list" where
  "connectedClients w = (case wssInstance w of None \<Rightarrow> [] | Some clients \<Rightarrow> clients)"

section \<open>The indexer: processSwap, updateDNAScore, checkLeaderboardChange\<close>

subsection \<open>Tables and statements\<close>

text \<open>
  The three tables the statements touch, with the columns they name. A row of
  \<open>user_stats\<close> is passed whole to the score service, so the record is the row.
  Timestamps are epoch milliseconds; \<open>DATE(timestamp)\<close> is the day number.
\<close>

record user_stats_row =
  us_address :: string
  total_swaps :: nat
  us_total_volume_usd :: real
  us_dna_score :: int
  us_tier :: string
  last_action :: "int option"
  updated_at :: int

record user_action_row =
  ua_address :: string
  protocol_version :: string
  action_type :: string
  pool_id :: string
  amount0 :: int
  amount1 :: int
  amount_usd :: "real option"
  tx_hash :: string
  block_number :: nat
  ua_timestamp :: int

record database =
  users :: "string list"
  user_stats :: "user_stats_row list"
  user_actions :: "user_action_row list"

record pool_info =
  token0 :: string
  token1 :: string
  fee :: int
  tick_spacing :: int

record event =
  transactionHash :: string
  blockNumber :: nat

datatype stmt =
    Begin | InsertUser | InsertUserStats | InsertUserAction | UpdateUserStats
  | SelectActiveDays | SelectFirstAction | SelectUserStats | UpdateDnaScore
  | SelectRanks | Commit

datatype error = QueryFailed stmt | PoolLookupFailed | PriceFeedFailed | ScoreServiceFailed

datatype log_entry =
    WarnNoPoolInfo string
  | WarnNoPrice string
  | InfoProcessedSwap string "real option"
  | ErrorProcessingSwap string error
  | WarnPoolInfoNotFound string
  | ErrorGettingPoolInfo string error
  | WarnNoSymbol string
  | WarnNoStats string
  | InfoUpdatedScore string int string
  | ErrorUpdatingScore string error
  | ErrorCheckingLeaderboard error

text \<open>
  What the indexer is given and does not define: the clock, the database's readiness to
  run each statement, the pool lookups, the price feed, the score service, and the two
  facts of the schema the statements rely on (the column defaults of a new
  \<open>user_stats\<close> row and the uniqueness rule behind \<open>ON CONFLICT DO NOTHING\<close> on
  \<open>user_actions\<close>).
\<close>

record env =
  now :: int
  fails :: "stmt \<Rightarrow> bool"
  poolsQuery :: "string \<Rightarrow> error + pool_info option"
  graphService :: "(string \<Rightarrow> error + pool_info option) option"
  symbol :: "string \<Rightarrow> string option"
  getPrice :: "string \<Rightarrow> string \<Rightarrow> error + real option"
  calculateScore :: "user_stats_row \<Rightarrow> nat \<Rightarrow> int \<Rightarrow> error + int"
  getTier :: "int \<Rightarrow> string"
  statsDefaults :: user_stats_row
  actionConflict :: "user_action_row \<Rightarrow> user_action_row list \<Rightarrow> bool"

text \<open>
  The calls the indexer makes on \<open>this.websocketServer\<close> are recorded in order, next to
  the module state they act on.
\<close>

datatype ws_call =
    CallUserUpdate userUpdatePayload
  | CallLeaderboardUpdate string "rankingChange option"
  | CallUserAction userActionPayload

record istate =
  db :: database
  websocketServer :: "wsmodule option"
  calls :: "ws_call list"
  logs :: "log_entry list"

record rank_row =
  rank :: nat
  rr_address :: string

record rank_change =
  rc_newRank :: int
  rc_oldRank :: int

definition msPerDay :: int where
  "msPerDay = 1000 * 60 * 60 * 24"

definition insertUser :: "string \<Rightarrow> database \<Rightarrow> database" where
  "insertUser addr d =
     (if addr \<in> set (users d) then d else d\<lparr>users := users d @ [addr]\<rparr>)"

definition insertUserStats :: "env \<Rightarrow> string \<Rightarrow> database \<Rightarrow> database" where
  "insertUserStats e addr d =
     (if list_ex (\<lambda>r. us_address r = addr) (user_stats d) then d
      else d\<lparr>user_stats := user_stats d @ [(statsDefaults e)\<lparr>us_address := addr\<rparr>]\<rparr>)"

definition insertUserAction :: "env \<Rightarrow> user_action_row \<Rightarrow> database \<Rightarrow> database" where
  "insertUserAction e row d =
     (if actionConflict e row (user_actions d) then d
      else d\<lparr>user_actions := user_actions d @ [row]\<rparr>)"

definition updateUserStats :: "env \<Rightarrow> string \<Rightarrow> real option \<Rightarrow> database \<Rightarrow> database" where
  "updateUserStats e addr usd d =
     d\<lparr>user_stats :=
         map (\<lambda>r. if us_address r = addr then
                     (case usd of
                        Some v \<Rightarrow> r\<lparr>total_swaps := total_swaps r + 1,
                                     us_total_volume_usd := us_total_volume_usd r + v,
                                     last_action := Some (now e), updated_at := now e\<rparr>
                      | None \<Rightarrow> r\<lparr>total_swaps := total_swaps r + 1,
                                   last_action := Some (now e), updated_at := now e\<rparr>)
                   else r)
           (user_stats d)\<rparr>"

definition selectActiveDays :: "string \<Rightarrow> database \<Rightarrow> nat" where
  "selectActiveDays addr d =
     length (remdups (map (\<lambda>r. ua_timestamp r div msPerDay)
                        (filter (\<lambda>r. ua_address r = addr) (user_actions d))))"

definition selectFirstAction :: "string \<Rightarrow> database \<Rightarrow> int option" where
  "selectFirstAction addr d =
     (case map ua_timestamp (filter (\<lambda>r. ua_address r = addr) (user_actions d)) of
        [] \<Rightarrow> None
      | t # ts \<Rightarrow> Some (fold min ts t))"

definition selectUserStats :: "string \<Rightarrow> database \<Rightarrow> user_stats_row list" where
  "selectUserStats addr d = filter (\<lambda>r. us_address r = addr) (user_stats d)"

definition updateDnaScore :: "env \<Rightarrow> string \<Rightarrow> int \<Rightarrow> string \<Rightarrow> database \<Rightarrow> database" where
  "updateDnaScore e addr score tr d =
     d\<lparr>user_stats :=
         map (\<lambda>r. if us_address r = addr
                   then r\<lparr>us_dna_score := score, us_tier := tr, updated_at := now e\<rparr>
                   else r)
           (user_stats d)\<rparr>"

text \<open>
  \<open>ROW_NUMBER() OVER (ORDER BY dna_score DESC)\<close> over the rows with a positive score.
  The statement orders by the score alone; rows of equal score come out in the order the
  table delivers them, which is the list order here (the sort is stable).
\<close>

definition rankedRows :: "user_stats_row list \<Rightarrow> user_stats_row list" where
  "rankedRows tbl = sort_key (\<lambda>r. - us_dna_score r) (filter (\<lambda>r. us_dna_score r > 0) tbl)"

definition selectRanks :: "database \<Rightarrow> rank_row list" where
  "selectRanks d =
     map (\<lambda>(i, r). \<lparr>rank = Suc i, rr_address = us_address r\<rparr>)
       (enumerate 0 (rankedRows (user_stats d)))"

definition currentRankOf :: "rank_row list \<Rightarrow> string \<Rightarrow> nat option" where
  "currentRankOf rows addr = map_option rank (find (\<lambda>r. rr_address r = addr) rows)"

subsection \<open>Sequencing, exceptions and logging\<close>

definition logMsg :: "log_entry \<Rightarrow> istate \<Rightarrow> istate" where
  "logMsg l st = st\<lparr>logs := logs st @ [l]\<rparr>"

definition andThen ::
  "(istate \<Rightarrow> (error + 'a) \<times> istate) \<Rightarrow> ('a \<Rightarrow> istate \<Rightarrow> (error + 'b) \<times> istate)
     \<Rightarrow> istate \<Rightarrow> (error + 'b) \<times> istate" where
  "andThen m f st = (case m st of (Inl err, st') \<Rightarrow> (Inl err, st') | (Inr x, st') \<Rightarrow> f x st')"

definition tryCatch ::
  "(istate \<Rightarrow> (error + 'a) \<times> istate) \<Rightarrow> (error \<Rightarrow> istate \<Rightarrow> (error + 'a) \<times> istate)
     \<Rightarrow> istate \<Rightarrow> (error + 'a) \<times> istate" where
  "tryCatch m h st = (case m st of (Inl err, st') \<Rightarrow> h err st' | (Inr x, st') \<Rightarrow> (Inr x, st'))"

definition queryRead :: "env \<Rightarrow> stmt \<Rightarrow> (database \<Rightarrow> 'a) \<Rightarrow> istate \<Rightarrow> (error + 'a) \<times> istate" where
  "queryRead e s f st = (if fails e s then (Inl (QueryFailed s), st) else (Inr (f (db st)), st))"

definition queryWrite ::
  "env \<Rightarrow> stmt \<Rightarrow> (database \<Rightarrow> database) \<Rightarrow> istate \<Rightarrow> (error + unit) \<times> istate" where
  "queryWrite e s f st =
     (if fails e s then (Inl (QueryFailed s), st) else (Inr (), st\<lparr>db := f (db st)\<rparr>))"

definition withTransaction ::
  "env \<Rightarrow> (istate \<Rightarrow> (error + unit) \<times> istate) \<Rightarrow> istate \<Rightarrow> (error + unit) \<times> istate" where
  \<comment> \<open>Modelled from the spec: \<open>withTransaction\<close> belongs to the database helper, which is not
     among the sources. The spec treats persistence as an external step that either
     completes or fails fast. The wrapper is taken as BEGIN, the callback, COMMIT; a
     failure of any of the three is passed on to the caller and the tables keep their
     contents from before the transaction.\<close>
  "withTransaction e body st =
     (if fails e Begin then (Inl (QueryFailed Begin), st)
      else
        (case body st of
           (Inl err, st') \<Rightarrow> (Inl err, st'\<lparr>db := db st\<rparr>)
         | (Inr x, st') \<Rightarrow>
             (if fails e Commit then (Inl (QueryFailed Commit), st'\<lparr>db := db st\<rparr>)
              else (Inr x, st'))))"

subsection \<open>Helpers of processSwap\<close>

definition lowerChar :: "char \<Rightarrow> char" where
  "lowerChar c =
     (if CHR ''A'' \<le> c \<and> c \<le> CHR ''Z'' then char_of (of_char c + (32 :: nat)) else c)"

definition toLowerCase :: "string \<Rightarrow> string" where
  "toLowerCase s = map lowerChar s"

definition getPoolInfo :: "env \<Rightarrow> string \<Rightarrow> istate \<Rightarrow> pool_info option \<times> istate" where
  "getPoolInfo e pid st =
     (case poolsQuery e pid of
        Inl err \<Rightarrow> (None, logMsg (ErrorGettingPoolInfo pid err) st)
      | Inr (Some row) \<Rightarrow> (Some row, st)
      | Inr None \<Rightarrow>
          (case graphService e of
             None \<Rightarrow> (None, logMsg (WarnPoolInfoNotFound pid) st)
           | Some getPoolById \<Rightarrow>
               (case getPoolById pid of
                  Inl err \<Rightarrow> (None, logMsg (ErrorGettingPoolInfo pid err) st)
                | Inr (Some poolData) \<Rightarrow> (Some poolData, st)
                | Inr None \<Rightarrow> (None, logMsg (WarnPoolInfoNotFound pid) st))))"

definition getTokenSymbol :: "env \<Rightarrow> string \<Rightarrow> istate \<Rightarrow> string \<times> istate" where
  "getTokenSymbol e tokenAddress st =
     (case symbol e tokenAddress of
        Some name \<Rightarrow> (name, st)
      | None \<Rightarrow> (tokenAddress, logMsg (WarnNoSymbol tokenAddress) st))"

text \<open>
  \<open>if (price0)\<close> tests the price for truthiness: \<open>null\<close> and \<open>0\<close> are both taken as "no
  price". The USD value is computed in floating point by the program and in the reals
  here; no property below depends on its digits.
\<close>

definition usablePrice :: "real option \<Rightarrow> real option" where
  "usablePrice p = (case p of None \<Rightarrow> None | Some v \<Rightarrow> if v = 0 then None else Some v)"

definition usdValue :: "int \<Rightarrow> real \<Rightarrow> real" where
  "usdValue amount price = \<bar>real_of_int amount / 10 ^ 18\<bar> * price"

subsection \<open>checkLeaderboardChange\<close>

text \<open>
  The function runs the rank query, looks the address up in the result and then returns
  \<open>null\<close>: there is no earlier rank to compare with. A failure of the query is logged and
  also answered with \<open>null\<close>.
\<close>

definition checkLeaderboardChange ::
  "env \<Rightarrow> string \<Rightarrow> istate \<Rightarrow> (error + rank_change option) \<times> istate" where
  "checkLeaderboardChange e addr st =
     tryCatch
       (andThen (queryRead e SelectRanks selectRanks)
          (\<lambda>currentRankResult st'.
             (let currentRank = currentRankOf currentRankResult addr
              in (Inr None, st'))))
       (\<lambda>err st'. (Inr None, logMsg (ErrorCheckingLeaderboard err) st'))
       st"

subsection \<open>updateDNAScore\<close>

definition callUserUpdate :: "userUpdatePayload \<Rightarrow> istate \<Rightarrow> istate" where
  "callUserUpdate p st =
     (case websocketServer st of
        None \<Rightarrow> st
      | Some w \<Rightarrow> st\<lparr>websocketServer := Some (snd (broadcastUserUpdate w p)),
                      calls := calls st @ [CallUserUpdate p]\<rparr>)"

definition callLeaderboardUpdate :: "env \<Rightarrow> string \<Rightarrow> rankingChange option \<Rightarrow> istate \<Rightarrow> istate" where
  "callLeaderboardUpdate e type data st =
     (case websocketServer st of
        None \<Rightarrow> st
      | Some w \<Rightarrow> st\<lparr>websocketServer := Some (snd (broadcastLeaderboardUpdate w type data (now e))),
                      calls := calls st @ [CallLeaderboardUpdate type data]\<rparr>)"

definition callUserAction :: "userActionPayload \<Rightarrow> istate \<Rightarrow> istate" where
  "callUserAction p st =
     (case websocketServer st of
        None \<Rightarrow> st
      | Some w \<Rightarrow> st\<lparr>websocketServer := Some (snd (broadcastUserAction w p)),
                      calls := calls st @ [CallUserAction p]\<rparr>)"

definition updateDNAScore_try :: "env \<Rightarrow> string \<Rightarrow> istate \<Rightarrow> (error + unit) \<times> istate" where
  "updateDNAScore_try e addr =
     andThen (queryRead e SelectActiveDays (selectActiveDays addr)) (\<lambda>activeDays.
     andThen (queryRead e SelectFirstAction (selectFirstAction addr)) (\<lambda>firstAction.
     andThen (queryRead e SelectUserStats (selectUserStats addr)) (\<lambda>statsRows.
       (let totalDaysSinceFirstAction =
              (case firstAction of Some t \<Rightarrow> (now e - t) div msPerDay | None \<Rightarrow> 0)
        in case statsRows of
             [] \<Rightarrow> (\<lambda>st. (Inr (), logMsg (WarnNoStats addr) st))
           | userStats # _ \<Rightarrow>
               andThen (\<lambda>st. (calculateScore e userStats activeDays totalDaysSinceFirstAction, st))
                 (\<lambda>score.
               andThen (queryWrite e UpdateDnaScore (updateDnaScore e addr score (getTier e score)))
                 (\<lambda>_.
               andThen (\<lambda>st. (Inr (), logMsg (InfoUpdatedScore addr score (getTier e score)) st))
                 (\<lambda>_.
               andThen (\<lambda>st. (Inr (),
                          callUserUpdate \<lparr>uu_address = addr, uu_dnaScore = score,
                                           uu_tier = getTier e score, uu_timestamp = now e\<rparr> st))
                 (\<lambda>_.
               andThen (checkLeaderboardChange e addr)
                 (\<lambda>rankChange st.
                    (case rankChange of
                       None \<Rightarrow> (Inr (), st)
                     | Some rc \<Rightarrow>
                         (Inr (),
                          callLeaderboardUpdate e ''incremental''
                            (Some \<lparr>address = addr, oldRank = rc_oldRank rc,
                                    newRank = rc_newRank rc, dnaScore = score,
                                    tier = getTier e score\<rparr>) st)))))))))))"

definition updateDNAScore :: "env \<Rightarrow> string \<Rightarrow> istate \<Rightarrow> (error + unit) \<times> istate" where
  "updateDNAScore e addr =
     tryCatch (updateDNAScore_try e addr)
       (\<lambda>err st. (Inl err, logMsg (ErrorUpdatingScore addr err) st))"

subsection \<open>processSwap\<close>

definition swapTransaction ::
  "env \<Rightarrow> event \<Rightarrow> string \<Rightarrow> string \<Rightarrow> int \<Rightarrow> int \<Rightarrow> real option
     \<Rightarrow> istate \<Rightarrow> (error + unit) \<times> istate" where
  "swapTransaction e ev pid addr amt0 amt1 usd =
     andThen (queryWrite e InsertUser (insertUser addr)) (\<lambda>_.
     andThen (queryWrite e InsertUserStats (insertUserStats e addr)) (\<lambda>_.
     andThen (queryWrite e InsertUserAction
                (insertUserAction e
                   \<lparr>ua_address = addr, protocol_version = ''v4'', action_type = ''swap'',
                     pool_id = pid, amount0 = amt0, amount1 = amt1, amount_usd = usd,
                     tx_hash = transactionHash ev, block_number = blockNumber ev,
                     ua_timestamp = now e\<rparr>)) (\<lambda>_.
     andThen (queryWrite e UpdateUserStats (updateUserStats e addr usd)) (\<lambda>_.
       updateDNAScore e addr))))"

definition processSwap_try ::
  "env \<Rightarrow> event \<Rightarrow> string \<Rightarrow> string \<Rightarrow> int \<Rightarrow> int \<Rightarrow> istate \<Rightarrow> (error + unit) \<times> istate" where
  "processSwap_try e ev pid addr amt0 amt1 st =
     (case getPoolInfo e pid st of
        (None, st1) \<Rightarrow> (Inr (), logMsg (WarnNoPoolInfo pid) st1)
      | (Some poolInfo, st1) \<Rightarrow>
          (case getTokenSymbol e (token0 poolInfo) st1 of (token0Symbol, st2) \<Rightarrow>
           case getTokenSymbol e (token1 poolInfo) st2 of (token1Symbol, st3) \<Rightarrow>
           case getPrice e (token0 poolInfo) token0Symbol of
             Inl err \<Rightarrow> (Inl err, st3)
           | Inr price0 \<Rightarrow>
          (case getPrice e (token1 poolInfo) token1Symbol of
             Inl err \<Rightarrow> (Inl err, st3)
           | Inr price1 \<Rightarrow>
          (case (case usablePrice price0 of
                   Some p0 \<Rightarrow> (Some (usdValue amt0 p0), st3)
                 | None \<Rightarrow>
                     (case usablePrice price1 of
                        Some p1 \<Rightarrow> (Some (usdValue amt1 p1), st3)
                      | None \<Rightarrow> (None, logMsg (WarnNoPrice pid) st3)))
           of (usd, st4) \<Rightarrow>
             andThen (withTransaction e (swapTransaction e ev pid addr amt0 amt1 usd))
               (\<lambda>_ st5.
                  (Inr (),
                   logMsg (InfoProcessedSwap addr usd)
                     (callUserAction
                        \<lparr>act_address = addr, actionType = ''swap'', poolId = Some pid,
                          amountUsd = usd, act_timestamp = now e\<rparr> st5)))
               st4))))"

definition processSwap ::
  "env \<Rightarrow> event \<Rightarrow> string \<Rightarrow> string \<Rightarrow> int \<Rightarrow> int \<Rightarrow> istate \<Rightarrow> (error + unit) \<times> istate" where
  "processSwap e ev pid sender amt0 amt1 =
     tryCatch (processSwap_try e ev pid (toLowerCase sender) amt0 amt1)
       (\<lambda>err st. (Inl err, logMsg (ErrorProcessingSwap (toLowerCase sender) err) st))"

subsection \<open>Observations used in the statements\<close>

text \<open>
  A transaction of \<open>processSwap\<close> issues, in program order, BEGIN, the four writes, the
  three reads of \<open>updateDNAScore\<close>, the score update, the rank query and COMMIT. The
  failure of any of them but the rank query reaches the \<open>catch\<close> of \<open>processSwap\<close>; these
  are the statements of \<open>propagatingStmts\<close>. A failure of the rank query
  (\<open>SelectRanks\<close>) is caught inside \<open>checkLeaderboardChange\<close> and goes no further. The
  statements of \<open>stmtsBeforeBroadcast\<close> are those that run before the first call on the
  websocket server. The other two definitions say what the outside world sees of an
  indexer state: the calls made on the websocket server with the server's own state, and
  the messages that reached each connected client.
\<close>

definition propagatingStmts :: "stmt list" where
  "propagatingStmts =
     [Begin, InsertUser, InsertUserStats, InsertUserAction, UpdateUserStats,
      SelectActiveDays, SelectFirstAction, SelectUserStats, UpdateDnaScore, Commit]"

definition stmtsBeforeBroadcast :: "stmt list" where
  "stmtsBeforeBroadcast =
     [Begin, InsertUser, InsertUserStats, InsertUserAction, UpdateUserStats,
      SelectActiveDays, SelectFirstAction, SelectUserStats, UpdateDnaScore]"

definition outside :: "istate \<Rightarrow> ws_call list \<times> wsmodule option" where
  "outside st = (calls st, websocketServer st)"

definition deliveredTo :: "istate \<Rightarrow> message list list" where
  "deliveredTo st =
     (case websocketServer st of
        None \<Rightarrow> []
      | Some w \<Rightarrow> map delivered (connectedClients w))"

section \<open>Concrete inputs\<close>

definition ex_client :: "nat \<Rightarrow> nat \<Rightarrow> bool \<Rightarrow> client" where
  "ex_client i rs thr = \<lparr>cid = i, readyState = rs, sendThrows = thr, sendCalls = 0, delivered = []\<rparr>"

definition ex_clients3 :: "client list" where
  "ex_clients3 = [ex_client 1 1 False, ex_client 2 1 True, ex_client 3 1 False]"

definition ex_clients_mixed :: "client list" where
  "ex_clients_mixed = [ex_client 1 1 False, ex_client 2 3 False, ex_client 3 1 True, ex_client 4 0 True]"

definition ex_msg :: message where
  "ex_msg = UserUpdate ''0xab'' 72 ''Expert'' 1000"

definition ex_module3 :: wsmodule where
  "ex_module3 = setWebSocketServer initialModule ex_clients3"

definition ex_changes :: "rankingChange list" where
  "ex_changes =
     [\<lparr>address = ''0x123'', oldRank = 10, newRank = 8, dnaScore = 85, tier = ''Expert''\<rparr>,
      \<lparr>address = ''0x456'', oldRank = 5, newRank = 7, dnaScore = 82, tier = ''Expert''\<rparr>]"

definition ex_changes_message :: message where
  "ex_changes_message =
     RankingChanges
       [\<lparr>address = ''0x123'', oldRank = 10, newRank = 8, dnaScore = 85, tier = ''Expert'',
          rankChange = Finite 2\<rparr>,
        \<lparr>address = ''0x456'', oldRank = 5, newRank = 7, dnaScore = 82, tier = ''Expert'',
          rankChange = Finite (- 2)\<rparr>]
       1000"

definition ex_stats :: "string \<Rightarrow> int \<Rightarrow> user_stats_row" where
  "ex_stats a sc =
     \<lparr>us_address = a, total_swaps = 0, us_total_volume_usd = 0, us_dna_score = sc,
       us_tier = ''Novice'', last_action = None, updated_at = 0\<rparr>"

definition ex_env :: "(stmt \<Rightarrow> bool) \<Rightarrow> env" where
  "ex_env f =
     \<lparr>now = 259200000, fails = f,
       poolsQuery = (\<lambda>_. Inr (Some \<lparr>token0 = ''0xt0'', token1 = ''0xt1'', fee = 3000, tick_spacing = 60\<rparr>)),
       graphService = None,
       symbol = (\<lambda>_. Some ''TKN''),
       getPrice = (\<lambda>_ _. Inr None),
       calculateScore = (\<lambda>_ _ _. Inr 60),
       getTier = (\<lambda>s. if 60 \<le> s then ''Expert'' else ''Novice''),
       statsDefaults = ex_stats [] 0,
       actionConflict = (\<lambda>r rs. list_ex (\<lambda>x. tx_hash x = tx_hash r) rs)\<rparr>"

definition ex_db :: database where
  "ex_db = \<lparr>users = [''0xa'', ''0xb''],
            user_stats = [ex_stats ''0xa'' 50, ex_stats ''0xb'' 40],
            user_actions = []\<rparr>"

definition ex_state :: "wsmodule option \<Rightarrow> istate" where
  "ex_state ws = \<lparr>db = ex_db, websocketServer = ws, calls = [], logs = []\<rparr>"

definition ex_event :: event where
  "ex_event = \<lparr>transactionHash = ''0xfeed'', blockNumber = 7\<rparr>"

definition ex_tie_db :: database where
  "ex_tie_db = \<lparr>users = [''0xb'', ''0xa''],
            user_stats = [ex_stats ''0xb'' 72, ex_stats ''0xa'' 72],
            user_actions = []\<rparr>"

definition ex_ok :: env where
  "ex_ok = ex_env (\<lambda>_. False)"

definition ex_commit_fails :: env where
  "ex_commit_fails = ex_env (\<lambda>s. s = Commit)"

definition ex_insert_fails :: env where
  "ex_insert_fails = ex_env (\<lambda>s. s = InsertUser)"

definition ex_ranks_fail :: env where
  "ex_ranks_fail = ex_env (\<lambda>s. s = SelectRanks)"

definition ex_attached :: istate where
  "ex_attached = ex_state (Some ex_module3)"

definition ex_detached :: istate where
  "ex_detached = ex_state None"

section \<open>Properties of the fan-out loop\<close>

lemma forEach_send_eq:
  "forEach_send m cs k =
     (k\<lparr>sentCount := sentCount k + length (filter (\<lambda>c. isOpen c \<and> \<not> sendThrows c) cs),
        errorCount := errorCount k + length (filter (\<lambda>c. isOpen c \<and> sendThrows c) cs)\<rparr>,
      map (attempt m) cs)"
  by (induction cs arbitrary: k) (auto simp: send_def attempt_def isOpen_def)

lemma broadcastToAll_Some:
  "wssInstance w = Some cs \<Longrightarrow>
   broadcastToAll w m =
     (\<lparr>sentCount = length (filter (\<lambda>c. isOpen c \<and> \<not> sendThrows c) cs),
       errorCount = length (filter (\<lambda>c. isOpen c \<and> sendThrows c) cs)\<rparr>,
      w\<lparr>wssInstance := Some (map (attempt m) cs)\<rparr>)"
  by (simp add: broadcastToAll_def forEach_send_eq)

lemma broadcastToAll_None:
  "wssInstance w = None \<Longrightarrow> broadcastToAll w m = (\<lparr>sentCount = 0, errorCount = 0\<rparr>, w)"
  by (simp add: broadcastToAll_def)

lemma count_open_split:
  "length (filter (\<lambda>c. isOpen c \<and> \<not> sendThrows c) cs) + length (filter (\<lambda>c. isOpen c \<and> sendThrows c) cs)
     = length (filter isOpen cs)"
  by (induction cs) auto

lemma all_open_filter:
  "\<forall>c\<in>set cs. isOpen c \<Longrightarrow> filter (\<lambda>c. isOpen c \<and> P c) cs = filter P cs"
  by (induction cs) auto

lemma filter_not_length:
  "length (filter (\<lambda>c. \<not> P c) cs) = length cs - length (filter P cs)"
  by (induction cs) (auto simp: Suc_diff_le)

lemma attempt_fields:
  "cid (attempt m c) = cid c" "readyState (attempt m c) = readyState c"
  "sendThrows (attempt m c) = sendThrows c" "isOpen (attempt m c) = isOpen c"
  by (simp_all add: attempt_def send_def isOpen_def)

lemma attempt_open:
  "isOpen c \<Longrightarrow> sendCalls (attempt m c) = Suc (sendCalls c)"
  "isOpen c \<Longrightarrow> \<not> sendThrows c \<Longrightarrow> delivered (attempt m c) = delivered c @ [m]"
  "isOpen c \<Longrightarrow> sendThrows c \<Longrightarrow> delivered (attempt m c) = delivered c"
  "\<not> isOpen c \<Longrightarrow> attempt m c = c"
  by (simp_all add: attempt_def send_def isOpen_def)

lemma filter_attempt:
  "filter (\<lambda>c. isOpen c \<and> sendThrows c) (map (attempt m) cs)
     = map (attempt m) (filter (\<lambda>c. isOpen c \<and> sendThrows c) cs)"
  by (induction cs) (simp_all add: attempt_fields)

text \<open>
  Claim C10. The two counters of a broadcast add up to the number of connected clients
  whose \<open>readyState\<close> is open (none are connected while no server is registered): the
  sent counter counts the open clients whose \<open>send\<close> returned, the error counter the
  open clients whose \<open>send\<close> threw, and every open client got exactly one call of
  \<open>send\<close>. A client in any other state is left as it was and is in neither counter.
\<close>
theorem broadcastToAll_counts_open:
  assumes "broadcastToAll w m = (k, w')"
  shows "sentCount k + errorCount k = length (filter isOpen (connectedClients w))
       \<and> sentCount k = length (filter (\<lambda>c. isOpen c \<and> \<not> sendThrows c) (connectedClients w))
       \<and> errorCount k = length (filter (\<lambda>c. isOpen c \<and> sendThrows c) (connectedClients w))
       \<and> length (connectedClients w') = length (connectedClients w)
       \<and> (\<forall>i<length (connectedClients w).
             (isOpen (connectedClients w ! i) \<longrightarrow>
                sendCalls (connectedClients w' ! i) = Suc (sendCalls (connectedClients w ! i))) \<and>
             (\<not> isOpen (connectedClients w ! i) \<longrightarrow>
                connectedClients w' ! i = connectedClients w ! i))"
proof (cases "wssInstance w")
  case None
  with assms show ?thesis
    by (auto simp: broadcastToAll_None connectedClients_def)
next
  case (Some cs)
  with assms have k: "sentCount k = length (filter (\<lambda>c. isOpen c \<and> \<not> sendThrows c) cs)"
      "errorCount k = length (filter (\<lambda>c. isOpen c \<and> sendThrows c) cs)"
    and w': "connectedClients w' = map (attempt m) cs"
    by (auto simp: broadcastToAll_Some connectedClients_def)
  have total: "sentCount k + errorCount k = length (filter isOpen cs)"
    using k by (simp add: count_open_split)
  have cs: "connectedClients w = cs"
    using Some by (simp add: connectedClients_def)
  show ?thesis using k total w' cs by (simp add: attempt_open)
qed

theorem broadcastToAll_counts_open_witness:
  "fst (broadcastToAll (setWebSocketServer initialModule ex_clients_mixed) ex_msg)
     = \<lparr>sentCount = 1, errorCount = 1\<rparr>
   \<and> length (filter isOpen ex_clients_mixed) = 2"
proof -
  let ?w = "setWebSocketServer initialModule ex_clients_mixed"
  have h1: "connectedClients ?w = ex_clients_mixed"
    by (simp add: setWebSocketServer_def connectedClients_def)
  have h2: "broadcastToAll ?w ex_msg = (fst (broadcastToAll ?w ex_msg), snd (broadcastToAll ?w ex_msg))"
    by simp
  have e: "filter (\<lambda>c. isOpen c \<and> \<not> sendThrows c) ex_clients_mixed = [ex_client 1 1 False]"
      "filter (\<lambda>c. isOpen c \<and> sendThrows c) ex_clients_mixed = [ex_client 3 1 True]"
      "filter isOpen ex_clients_mixed = [ex_client 1 1 False, ex_client 3 1 True]"
    by (simp_all add: ex_clients_mixed_def ex_client_def isOpen_def)
  from broadcastToAll_counts_open [OF h2] h1 e
  have "sentCount (fst (broadcastToAll ?w ex_msg)) = 1 \<and> errorCount (fst (broadcastToAll ?w ex_msg)) = 1"
    by simp
  then show ?thesis using e by simp
qed

text \<open>
  Claim C9. While no server has been registered with \<open>setWebSocketServer\<close>, each of the
  five broadcast operations returns zero sent and zero failed, and leaves the module as
  it was; there is no client to send to and no exception to raise.
\<close>
theorem no_server_no_send:
  "broadcastLeaderboardUpdate initialModule type data t = (\<lparr>sentCount = 0, errorCount = 0\<rparr>, initialModule)
   \<and> broadcastRankingChanges initialModule changes t = (\<lparr>sentCount = 0, errorCount = 0\<rparr>, initialModule)
   \<and> broadcastNewLeader initialModule ld t = (\<lparr>sentCount = 0, errorCount = 0\<rparr>, initialModule)
   \<and> broadcastUserUpdate initialModule up = (\<lparr>sentCount = 0, errorCount = 0\<rparr>, initialModule)
   \<and> broadcastUserAction initialModule ua = (\<lparr>sentCount = 0, errorCount = 0\<rparr>, initialModule)"
  by (simp add: broadcastLeaderboardUpdate_def broadcastRankingChanges_def broadcastNewLeader_def
      broadcastUserUpdate_def broadcastUserAction_def broadcastToAll_def initialModule_def)

subsection \<open>The ranking_changes message\<close>

text \<open>
  The subtraction of the program at work: a difference that needs 54 bits is rounded, and
  the difference of two 1-based ranks that fit a double never is.
\<close>

lemma jsSubtract_rounds_beyond_53_bits:
  "jsSubtract (2 ^ 53) (- 1) = Finite 9007199254740992"
  by code_simp

lemma roundToDouble_exact: "\<bar>x\<bar> < 2 ^ 53 \<Longrightarrow> roundToDouble x = Finite x"
  by (simp add: roundToDouble_def)

lemma jsSubtract_ranks:
  assumes "1 \<le> a" "a \<le> 2 ^ 53" "1 \<le> b" "b \<le> 2 ^ 53"
  shows "jsSubtract a b = Finite (a - b)"
proof -
  from assms have "\<bar>a - b\<bar> < 2 ^ 53" by simp
  then show ?thesis by (simp add: jsSubtract_def roundToDouble_exact)
qed

lemma withRankChange_fields:
  "address (withRankChange c) = address c" "oldRank (withRankChange c) = oldRank c"
  "newRank (withRankChange c) = newRank c" "dnaScore (withRankChange c) = dnaScore c"
  "tier (withRankChange c) = tier c"
  "rankChange (withRankChange c) = jsSubtract (oldRank c) (newRank c)"
  by (simp_all add: withRankChange_def rankingChange.defs rankingChangeOut.defs)

lemma FIXED_message_same:
  "rankingChangesMessage_FIXED changes t = rankingChangesMessage changes t"
  by (simp add: rankingChangesMessage_FIXED_def rankingChangesMessage_def withRankChange_def
      rankingChange.defs rankingChangeOut.defs)

lemma attempt_delivered:
  "delivered (attempt m c) = (if isOpen c \<and> \<not> sendThrows c then delivered c @ [m] else delivered c)"
  by (simp add: attempt_def send_def isOpen_def)

text \<open>
  Claim C6. Both versions of \<open>broadcastRankingChanges\<close> send one \<open>ranking_changes\<close>
  message, the same for both, to every open client whose \<open>send\<close> works and to no one
  else. The message has one element per change, in order; each element carries the
  address, old rank, new rank, score and tier of its change unchanged, and its
  \<open>rankChange\<close> is the program's subtraction of its new rank from its old rank. For
  1-based ranks up to \<open>2 ^ 53\<close> that is the exact difference, positive when the user
  moved up.
\<close>

theorem rankChange_is_old_minus_new:
  "\<exists>es. length es = length changes
     \<and> (\<forall>j<length changes.
           rankChange (es ! j) = jsSubtract (oldRank (es ! j)) (newRank (es ! j))
         \<and> (1 \<le> oldRank (es ! j) \<and> oldRank (es ! j) \<le> 2 ^ 53
              \<and> 1 \<le> newRank (es ! j) \<and> newRank (es ! j) \<le> 2 ^ 53
              \<longrightarrow> rankChange (es ! j) = Finite (oldRank (es ! j) - newRank (es ! j)))
         \<and> address (es ! j) = address (changes ! j)
         \<and> oldRank (es ! j) = oldRank (changes ! j)
         \<and> newRank (es ! j) = newRank (changes ! j)
         \<and> dnaScore (es ! j) = dnaScore (changes ! j)
         \<and> tier (es ! j) = tier (changes ! j))
     \<and> broadcastRankingChanges w changes t = broadcastToAll w (RankingChanges es t)
     \<and> length (connectedClients (snd (broadcastRankingChanges w changes t)))
         = length (connectedClients w)
     \<and> (\<forall>i<length (connectedClients w).
           delivered (connectedClients (snd (broadcastRankingChanges w changes t)) ! i)
             = (if isOpen (connectedClients w ! i) \<and> \<not> sendThrows (connectedClients w ! i)
                then delivered (connectedClients w ! i) @ [RankingChanges es t]
                else delivered (connectedClients w ! i)))
     \<and> length (broadcastRankingChanges_FIXED clients changes t) = length clients
     \<and> (\<forall>i<length clients.
           delivered (broadcastRankingChanges_FIXED clients changes t ! i)
             = (if isOpen (clients ! i) \<and> \<not> sendThrows (clients ! i)
                then delivered (clients ! i) @ [RankingChanges es t]
                else delivered (clients ! i)))"
proof -
  let ?es = "map withRankChange changes"
  have elems: "\<forall>j<length changes.
           rankChange (?es ! j) = jsSubtract (oldRank (?es ! j)) (newRank (?es ! j))
         \<and> (1 \<le> oldRank (?es ! j) \<and> oldRank (?es ! j) \<le> 2 ^ 53
              \<and> 1 \<le> newRank (?es ! j) \<and> newRank (?es ! j) \<le> 2 ^ 53
              \<longrightarrow> rankChange (?es ! j) = Finite (oldRank (?es ! j) - newRank (?es ! j)))
         \<and> address (?es ! j) = address (changes ! j)
         \<and> oldRank (?es ! j) = oldRank (changes ! j)
         \<and> newRank (?es ! j) = newRank (changes ! j)
         \<and> dnaScore (?es ! j) = dnaScore (changes ! j)
         \<and> tier (?es ! j) = tier (changes ! j)"
    by (simp add: withRankChange_fields jsSubtract_ranks)
  have call: "broadcastRankingChanges w changes t = broadcastToAll w (RankingChanges ?es t)"
    by (simp add: broadcastRankingChanges_def rankingChangesMessage_def)
  have after: "connectedClients (snd (broadcastToAll w m)) = map (attempt m) (connectedClients w)" for m
    by (cases "wssInstance w")
       (simp_all add: broadcastToAll_None broadcastToAll_Some connectedClients_def)
  have mod: "length (connectedClients (snd (broadcastRankingChanges w changes t)))
         = length (connectedClients w)"
    "\<forall>i<length (connectedClients w).
           delivered (connectedClients (snd (broadcastRankingChanges w changes t)) ! i)
             = (if isOpen (connectedClients w ! i) \<and> \<not> sendThrows (connectedClients w ! i)
                then delivered (connectedClients w ! i) @ [RankingChanges ?es t]
                else delivered (connectedClients w ! i))"
    by (simp_all add: call after attempt_delivered)
  have fixed: "broadcastRankingChanges_FIXED clients changes t
      = map (attempt (RankingChanges ?es t)) clients"
    by (simp add: broadcastRankingChanges_FIXED_def FIXED_message_same rankingChangesMessage_def
        forEach_send_eq)
  have patch: "length (broadcastRankingChanges_FIXED clients changes t) = length clients"
    "\<forall>i<length clients.
           delivered (broadcastRankingChanges_FIXED clients changes t ! i)
             = (if isOpen (clients ! i) \<and> \<not> sendThrows (clients ! i)
                then delivered (clients ! i) @ [RankingChanges ?es t]
                else delivered (clients ! i))"
    by (simp_all add: fixed attempt_delivered)
  have "length ?es = length changes" by simp
  with elems call mod patch show ?thesis by blast
qed

theorem rankChange_is_old_minus_new_witness:
  "delivered (connectedClients (snd (broadcastRankingChanges ex_module3 ex_changes 1000)) ! 0)
     = [ex_changes_message]
   \<and> delivered (broadcastRankingChanges_FIXED ex_clients3 ex_changes 1000 ! 0)
     = [ex_changes_message]"
proof -
  from rankChange_is_old_minus_new [of ex_changes ex_module3 1000 ex_clients3]
  obtain es where len: "length es = length ex_changes"
    and el: "\<forall>j<length ex_changes.
           rankChange (es ! j) = jsSubtract (oldRank (es ! j)) (newRank (es ! j))
         \<and> (1 \<le> oldRank (es ! j) \<and> oldRank (es ! j) \<le> 2 ^ 53
              \<and> 1 \<le> newRank (es ! j) \<and> newRank (es ! j) \<le> 2 ^ 53
              \<longrightarrow> rankChange (es ! j) = Finite (oldRank (es ! j) - newRank (es ! j)))
         \<and> address (es ! j) = address (ex_changes ! j)
         \<and> oldRank (es ! j) = oldRank (ex_changes ! j)
         \<and> newRank (es ! j) = newRank (ex_changes ! j)
         \<and> dnaScore (es ! j) = dnaScore (ex_changes ! j)
         \<and> tier (es ! j) = tier (ex_changes ! j)"
    and d1: "\<forall>i<length (connectedClients ex_module3).
           delivered (connectedClients (snd (broadcastRankingChanges ex_module3 ex_changes 1000)) ! i)
             = (if isOpen (connectedClients ex_module3 ! i) \<and> \<not> sendThrows (connectedClients ex_module3 ! i)
                then delivered (connectedClients ex_module3 ! i) @ [RankingChanges es 1000]
                else delivered (connectedClients ex_module3 ! i))"
    and d2: "\<forall>i<length ex_clients3.
           delivered (broadcastRankingChanges_FIXED ex_clients3 ex_changes 1000 ! i)
             = (if isOpen (ex_clients3 ! i) \<and> \<not> sendThrows (ex_clients3 ! i)
                then delivered (ex_clients3 ! i) @ [RankingChanges es 1000]
                else delivered (ex_clients3 ! i))"
    by blast
  have l2: "length es = 2" using len by (simp add: ex_changes_def)
  have js: "0 < length ex_changes" "1 < length ex_changes"
    by (simp_all add: ex_changes_def)
  have e0: "es ! 0 = \<lparr>address = ''0x123'', oldRank = 10, newRank = 8, dnaScore = 85,
      tier = ''Expert'', rankChange = Finite 2\<rparr>"
    using el [rule_format, OF js(1)] by (cases "es ! 0") (simp add: ex_changes_def)
  have e1: "es ! 1 = \<lparr>address = ''0x456'', oldRank = 5, newRank = 7, dnaScore = 82,
      tier = ''Expert'', rankChange = Finite (- 2)\<rparr>"
    using el [rule_format, OF js(2)] by (cases "es ! 1") (simp add: ex_changes_def)
  from l2 e0 e1 have es: "RankingChanges es 1000 = ex_changes_message"
    by (auto simp: ex_changes_message_def list_eq_iff_nth_eq less_Suc_eq numeral_2_eq_2)
  have cc: "connectedClients ex_module3 = ex_clients3"
    by (simp add: ex_module3_def setWebSocketServer_def connectedClients_def)
  have c0: "isOpen (ex_clients3 ! 0)" "\<not> sendThrows (ex_clients3 ! 0)"
    "delivered (ex_clients3 ! 0) = []" "0 < length ex_clients3"
    by (simp_all add: ex_clients3_def ex_client_def isOpen_def)
  from d1 cc c0 es
  have a: "delivered (connectedClients (snd (broadcastRankingChanges ex_module3 ex_changes 1000)) ! 0)
     = [ex_changes_message]" by simp
  from d2 c0 es
  have b: "delivered (broadcastRankingChanges_FIXED ex_clients3 ex_changes 1000 ! 0)
     = [ex_changes_message]" by simp
  from a b show ?thesis by blast
qed

lemma FIXED_eq:
  "broadcastLeaderboardUpdate_FIXED cs type data t =
     (\<lparr>sentCount = length (filter (\<lambda>c. isOpen c \<and> \<not> sendThrows c) cs),
       errorCount = length (filter (\<lambda>c. isOpen c \<and> sendThrows c) cs)\<rparr>,
      map (attempt (LeaderboardUpdate type data t)) cs)"
  by (simp add: broadcastLeaderboardUpdate_FIXED_def forEach_send_eq)

text \<open>
  Claim C3. A broadcast over three open connections of which exactly one throws on
  \<open>send\<close> returns two sent and one failed, in \<open>broadcastToAll\<close> and in the patch file's
  \<open>broadcastLeaderboardUpdate\<close> alike. For any number of connections, every open client
  gets its call of \<open>send\<close> whatever happened to the others, and every open client whose
  \<open>send\<close> returns has the message delivered.
\<close>
theorem broadcast_isolation:
  assumes "wssInstance w = Some cs" and "broadcastToAll w m = (k, w')"
    and "broadcastLeaderboardUpdate_FIXED cs type data t = (kf, csf)"
  shows "(length cs = 3 \<and> (\<forall>c\<in>set cs. isOpen c) \<and> length (filter sendThrows cs) = 1
            \<longrightarrow> sentCount k = 2 \<and> errorCount k = 1 \<and> sentCount kf = 2 \<and> errorCount kf = 1)
         \<and> (\<exists>cs'. wssInstance w' = Some cs' \<and> length cs' = length cs \<and>
              (\<forall>i<length cs. isOpen (cs ! i) \<longrightarrow>
                 sendCalls (cs' ! i) = Suc (sendCalls (cs ! i)) \<and>
                 (\<not> sendThrows (cs ! i) \<longrightarrow> delivered (cs' ! i) = delivered (cs ! i) @ [m])))
         \<and> length csf = length cs
         \<and> (\<forall>i<length cs. isOpen (cs ! i) \<longrightarrow>
                 sendCalls (csf ! i) = Suc (sendCalls (cs ! i)) \<and>
                 (\<not> sendThrows (cs ! i) \<longrightarrow>
                    delivered (csf ! i) = delivered (cs ! i) @ [LeaderboardUpdate type data t]))"
proof -
  from assms(1,2) have k: "sentCount k = length (filter (\<lambda>c. isOpen c \<and> \<not> sendThrows c) cs)"
      "errorCount k = length (filter (\<lambda>c. isOpen c \<and> sendThrows c) cs)"
    and w': "wssInstance w' = Some (map (attempt m) cs)"
    by (auto simp: broadcastToAll_Some)
  from assms(3) have kf: "sentCount kf = length (filter (\<lambda>c. isOpen c \<and> \<not> sendThrows c) cs)"
      "errorCount kf = length (filter (\<lambda>c. isOpen c \<and> sendThrows c) cs)"
    and csf: "csf = map (attempt (LeaderboardUpdate type data t)) cs"
    by (auto simp: FIXED_eq)
  have three: "sentCount k = 2 \<and> errorCount k = 1 \<and> sentCount kf = 2 \<and> errorCount kf = 1"
    if "length cs = 3" "\<forall>c\<in>set cs. isOpen c" "length (filter sendThrows cs) = 1"
    using that k kf by (simp add: all_open_filter filter_not_length)
  have each: "sendCalls (map (attempt x) cs ! i) = Suc (sendCalls (cs ! i)) \<and>
      (\<not> sendThrows (cs ! i) \<longrightarrow> delivered (map (attempt x) cs ! i) = delivered (cs ! i) @ [x])"
    if "i < length cs" "isOpen (cs ! i)" for i x
    using that by (simp add: attempt_open)
  show ?thesis using three each w' csf by simp
qed

theorem broadcast_isolation_witness:
  "fst (broadcastToAll ex_module3 ex_msg) = \<lparr>sentCount = 2, errorCount = 1\<rparr>
   \<and> fst (broadcastLeaderboardUpdate_FIXED ex_clients3 ''incremental'' None 1000)
       = \<lparr>sentCount = 2, errorCount = 1\<rparr>
   \<and> length ex_clients3 = 3 \<and> list_all isOpen ex_clients3
   \<and> length (filter sendThrows ex_clients3) = 1"
proof -
  have h1: "wssInstance ex_module3 = Some ex_clients3"
    by (simp add: ex_module3_def setWebSocketServer_def)
  have h2: "broadcastToAll ex_module3 ex_msg
            = (fst (broadcastToAll ex_module3 ex_msg), snd (broadcastToAll ex_module3 ex_msg))"
    by simp
  have h3: "broadcastLeaderboardUpdate_FIXED ex_clients3 ''incremental'' None 1000
            = (fst (broadcastLeaderboardUpdate_FIXED ex_clients3 ''incremental'' None 1000),
               snd (broadcastLeaderboardUpdate_FIXED ex_clients3 ''incremental'' None 1000))"
    by simp
  have h4: "length ex_clients3 = 3 \<and> (\<forall>c\<in>set ex_clients3. isOpen c)
      \<and> length (filter sendThrows ex_clients3) = 1"
    by (simp add: ex_clients3_def ex_client_def isOpen_def)
  from broadcast_isolation [OF h1 h2 h3] h4
  have "sentCount (fst (broadcastToAll ex_module3 ex_msg)) = 2
     \<and> errorCount (fst (broadcastToAll ex_module3 ex_msg)) = 1
     \<and> sentCount (fst (broadcastLeaderboardUpdate_FIXED ex_clients3 ''incremental'' None 1000)) = 2
     \<and> errorCount (fst (broadcastLeaderboardUpdate_FIXED ex_clients3 ''incremental'' None 1000)) = 1"
    by blast
  then have "fst (broadcastToAll ex_module3 ex_msg) = \<lparr>sentCount = 2, errorCount = 1\<rparr>
    \<and> fst (broadcastLeaderboardUpdate_FIXED ex_clients3 ''incremental'' None 1000)
       = \<lparr>sentCount = 2, errorCount = 1\<rparr>"
    by simp
  with h4 show ?thesis by (simp add: list_all_iff)
qed

text \<open>
  Claim C4, as stated, fails: after a broadcast in which the second of three clients
  threw, the client set still holds all three, and the next broadcast calls \<open>send\<close> on
  the failed client again and counts its failure again.
\<close>
theorem failed_client_not_pruned_counterexample:
  "map_option (map cid) (wssInstance (snd (broadcastToAll ex_module3 ex_msg))) = Some [1, 2, 3]
   \<and> map_option (map sendCalls) (wssInstance (snd (broadcastToAll ex_module3 ex_msg))) = Some [1, 1, 1]
   \<and> errorCount (fst (broadcastToAll ex_module3 ex_msg)) = 1
   \<and> map_option (map sendCalls)
        (wssInstance (snd (broadcastToAll (snd (broadcastToAll ex_module3 ex_msg)) ex_msg)))
       = Some [2, 2, 2]
   \<and> errorCount (fst (broadcastToAll (snd (broadcastToAll ex_module3 ex_msg)) ex_msg)) = 1"
  by (simp add: ex_module3_def setWebSocketServer_def initialModule_def ex_clients3_def
      ex_client_def broadcastToAll_def send_def)

text \<open>
  Claim C4, amended. A broadcast never removes a client: the set keeps the same
  identities and ready states, a client whose \<open>send\<close> threw is still there, and a
  following broadcast calls \<open>send\<close> on it once more (it is counted as failed again).
\<close>

theorem failed_client_stays:
  assumes "wssInstance w = Some cs" and "broadcastToAll w m = (k, w')"
    and "broadcastToAll w' m2 = (k2, w'')"
  shows "map cid (snd (broadcastLeaderboardUpdate_FIXED cs type data t)) = map cid cs \<and>
         (\<exists>cs' cs''. wssInstance w' = Some cs' \<and> wssInstance w'' = Some cs''
           \<and> map cid cs' = map cid cs \<and> map readyState cs' = map readyState cs
           \<and> length cs'' = length cs
           \<and> errorCount k2 = errorCount k
           \<and> (\<forall>i<length cs. isOpen (cs ! i) \<and> sendThrows (cs ! i) \<longrightarrow>
                 sendCalls (cs' ! i) = sendCalls (cs ! i) + 1 \<and>
                 sendCalls (cs'' ! i) = sendCalls (cs ! i) + 2))"
proof -
  from assms(1,2) have k: "errorCount k = length (filter (\<lambda>c. isOpen c \<and> sendThrows c) cs)"
    and w': "wssInstance w' = Some (map (attempt m) cs)"
    by (auto simp: broadcastToAll_Some)
  from assms(3) w'
  have k2: "errorCount k2 = length (filter (\<lambda>c. isOpen c \<and> sendThrows c) (map (attempt m) cs))"
    and w'': "wssInstance w'' = Some (map (attempt m2) (map (attempt m) cs))"
    by (auto simp: broadcastToAll_Some)
  have same: "errorCount k2 = errorCount k"
    using k k2 by (simp add: filter_attempt)
  have ids: "map cid (map (attempt m) cs) = map cid cs"
      "map readyState (map (attempt m) cs) = map readyState cs"
    by (simp_all add: attempt_fields)
  have twice: "sendCalls (map (attempt m) cs ! i) = sendCalls (cs ! i) + 1 \<and>
               sendCalls (map (attempt m2) (map (attempt m) cs) ! i) = sendCalls (cs ! i) + 2"
    if "i < length cs" "isOpen (cs ! i)" for i
    using that by (simp add: attempt_open attempt_fields)
  have fixed: "map cid (snd (broadcastLeaderboardUpdate_FIXED cs type data t)) = map cid cs"
    by (simp add: FIXED_eq attempt_fields)
  show ?thesis using w' w'' same ids twice fixed by simp
qed

theorem failed_client_stays_witness:
  "errorCount (fst (broadcastToAll (snd (broadcastToAll ex_module3 ex_msg)) ex_msg))
     = errorCount (fst (broadcastToAll ex_module3 ex_msg))
   \<and> map_option (map cid) (wssInstance (snd (broadcastToAll ex_module3 ex_msg))) = Some (map cid ex_clients3)"
proof -
  let ?r1 = "broadcastToAll ex_module3 ex_msg"
  let ?r2 = "broadcastToAll (snd ?r1) ex_msg"
  have h1: "wssInstance ex_module3 = Some ex_clients3"
    by (simp add: ex_module3_def setWebSocketServer_def)
  have h2: "?r1 = (fst ?r1, snd ?r1)" by simp
  have h3: "?r2 = (fst ?r2, snd ?r2)" by simp
  from failed_client_stays [OF h1 h2 h3, where type = "''incremental''" and data = None and t = 0]
  show ?thesis by auto
qed

section \<open>Properties of the indexer\<close>

subsection \<open>Rank-change detection\<close>

lemma checkLeaderboardChange_null:
  "fst (checkLeaderboardChange e addr st) = Inr None"
  "calls (snd (checkLeaderboardChange e addr st)) = calls st"
  "db (snd (checkLeaderboardChange e addr st)) = db st"
  "websocketServer (snd (checkLeaderboardChange e addr st)) = websocketServer st"
  by (simp_all add: checkLeaderboardChange_def tryCatch_def andThen_def queryRead_def logMsg_def)

text \<open>
  Claim C1, evaluated on the program. User \<open>0xb\<close> holds rank 2 behind \<open>0xa\<close> (scores 40
  and 50); the recompute gives \<open>0xb\<close> the score 60 and with it rank 1. The claim asks for
  a rank-changed report and an incremental \<open>leaderboard_update\<close>. The program sends the
  \<open>user_update\<close> only: \<open>checkLeaderboardChange\<close> answers \<open>null\<close> here, as it does on
  every input, so the branch of \<open>updateDNAScore\<close> that would broadcast the change is
  never taken.
\<close>

theorem rank_change_never_reported:
  "currentRankOf (selectRanks (db ex_attached)) ''0xb'' = Some 2
   \<and> currentRankOf (selectRanks (db (snd (updateDNAScore ex_ok ''0xb'' ex_attached)))) ''0xb'' = Some 1
   \<and> fst (updateDNAScore ex_ok ''0xb'' ex_attached) = Inr ()
   \<and> calls (snd (updateDNAScore ex_ok ''0xb'' ex_attached))
       = [CallUserUpdate \<lparr>uu_address = ''0xb'', uu_dnaScore = 60, uu_tier = ''Expert'',
                           uu_timestamp = 259200000\<rparr>]
   \<and> deliveredTo (snd (updateDNAScore ex_ok ''0xb'' ex_attached))
       = [[UserUpdate ''0xb'' 60 ''Expert'' 259200000], [],
          [UserUpdate ''0xb'' 60 ''Expert'' 259200000]]
   \<and> fst (checkLeaderboardChange ex_ok ''0xb'' (snd (updateDNAScore ex_ok ''0xb'' ex_attached)))
       = Inr None
   \<and> fst (checkLeaderboardChange e addr st) = Inr None"
proof -
  have at_input:
    "currentRankOf (selectRanks (db ex_attached)) ''0xb'' = Some 2
     \<and> currentRankOf (selectRanks (db (snd (updateDNAScore ex_ok ''0xb'' ex_attached)))) ''0xb'' = Some 1
     \<and> fst (updateDNAScore ex_ok ''0xb'' ex_attached) = Inr ()
     \<and> calls (snd (updateDNAScore ex_ok ''0xb'' ex_attached))
         = [CallUserUpdate \<lparr>uu_address = ''0xb'', uu_dnaScore = 60, uu_tier = ''Expert'',
                             uu_timestamp = 259200000\<rparr>]
     \<and> deliveredTo (snd (updateDNAScore ex_ok ''0xb'' ex_attached))
         = [[UserUpdate ''0xb'' 60 ''Expert'' 259200000], [],
            [UserUpdate ''0xb'' 60 ''Expert'' 259200000]]
     \<and> fst (checkLeaderboardChange ex_ok ''0xb'' (snd (updateDNAScore ex_ok ''0xb'' ex_attached)))
         = Inr None"
    by code_simp
  have always: "fst (checkLeaderboardChange e addr st) = Inr None"
    by (rule checkLeaderboardChange_null(1))
  from at_input always show ?thesis by blast
qed

subsection \<open>The user_update broadcast\<close>

text \<open>
  Claim C7, as stated, fails: with no websocket server attached to the indexer the score
  of \<open>0xb\<close> is recomputed and stored, and nothing is broadcast.
\<close>

theorem user_update_needs_server_counterexample:
  "fst (updateDNAScore ex_ok ''0xb'' ex_detached) = Inr ()
   \<and> map us_dna_score (user_stats (db (snd (updateDNAScore ex_ok ''0xb'' ex_detached)))) = [50, 60]
   \<and> calls (snd (updateDNAScore ex_ok ''0xb'' ex_detached)) = []"
  by code_simp

text \<open>
  Claim C7, amended. When a websocket server is attached to the indexer, every recompute
  that finds the user's stats row and completes the score update calls
  \<open>broadcastUserUpdate\<close> exactly once, with the address, the new score, its tier and the
  current time, and makes no other broadcast call; this does not depend on the ranks, nor
  on whether the rank query succeeds.
\<close>

theorem user_update_always_sent:
  assumes "websocketServer st = Some w"
    and "\<not> fails e SelectActiveDays" and "\<not> fails e SelectFirstAction"
    and "\<not> fails e SelectUserStats" and "\<not> fails e UpdateDnaScore"
    and "selectUserStats addr (db st) = userStats # rest"
    and "calculateScore e userStats (selectActiveDays addr (db st))
           (case selectFirstAction addr (db st) of
              Some t \<Rightarrow> (now e - t) div msPerDay | None \<Rightarrow> 0) = Inr score"
  shows "fst (updateDNAScore e addr st) = Inr ()
       \<and> calls (snd (updateDNAScore e addr st))
           = calls st @ [CallUserUpdate \<lparr>uu_address = addr, uu_dnaScore = score,
                                           uu_tier = getTier e score, uu_timestamp = now e\<rparr>]
       \<and> websocketServer (snd (updateDNAScore e addr st))
           = Some (snd (broadcastToAll w (UserUpdate addr score (getTier e score) (now e))))
       \<and> db (snd (updateDNAScore e addr st)) = updateDnaScore e addr score (getTier e score) (db st)"
proof -
  let ?p = "\<lparr>uu_address = addr, uu_dnaScore = score, uu_tier = getTier e score, uu_timestamp = now e\<rparr>"
  let ?st1 = "callUserUpdate ?p
     (logMsg (InfoUpdatedScore addr score (getTier e score))
        (st\<lparr>db := updateDnaScore e addr score (getTier e score) (db st)\<rparr>))"
  have run: "updateDNAScore_try e addr st =
      (case checkLeaderboardChange e addr ?st1 of (r, st2) \<Rightarrow> (Inr (), st2))"
    using assms(2-7) checkLeaderboardChange_null(1) [of e addr ?st1]
    by (auto simp: updateDNAScore_try_def andThen_def queryRead_def queryWrite_def
        split: prod.splits)
  have st1: "calls ?st1 = calls st @ [CallUserUpdate ?p]"
    "websocketServer ?st1 = Some (snd (broadcastToAll w (UserUpdate addr score (getTier e score) (now e))))"
    "db ?st1 = updateDnaScore e addr score (getTier e score) (db st)"
    using assms(1) by (simp_all add: callUserUpdate_def logMsg_def broadcastUserUpdate_def)
  show ?thesis
    using run st1 checkLeaderboardChange_null [of e addr ?st1]
    by (simp add: updateDNAScore_def tryCatch_def split: prod.splits)
qed

theorem user_update_always_sent_witness:
  "calls (snd (updateDNAScore ex_ok ''0xb'' ex_attached))
     = [CallUserUpdate \<lparr>uu_address = ''0xb'', uu_dnaScore = 60, uu_tier = ''Expert'',
                         uu_timestamp = 259200000\<rparr>]"
proof -
  have h1: "websocketServer ex_attached = Some ex_module3"
    by (simp add: ex_attached_def ex_state_def)
  have h2: "\<not> fails ex_ok SelectActiveDays" "\<not> fails ex_ok SelectFirstAction"
    "\<not> fails ex_ok SelectUserStats" "\<not> fails ex_ok UpdateDnaScore"
    by (simp_all add: ex_ok_def ex_env_def)
  have h3: "selectUserStats ''0xb'' (db ex_attached) = ex_stats ''0xb'' 40 # []" by code_simp
  have h4: "calculateScore ex_ok (ex_stats ''0xb'' 40) (selectActiveDays ''0xb'' (db ex_attached))
           (case selectFirstAction ''0xb'' (db ex_attached) of
              Some t \<Rightarrow> (now ex_ok - t) div msPerDay | None \<Rightarrow> 0) = Inr 60"
    by (simp add: ex_ok_def ex_env_def)
  have h5: "calls ex_attached = []" "getTier ex_ok 60 = ''Expert''" "now ex_ok = 259200000"
    by (simp_all add: ex_attached_def ex_state_def ex_ok_def ex_env_def)
  from user_update_always_sent [OF h1 h2 h3 h4] h5 show ?thesis by simp
qed

text \<open>
  Without a websocket server attached, a recompute makes no call at all.
\<close>

lemma no_server_no_call:
  assumes "websocketServer st = None"
  shows "calls (snd (updateDNAScore e addr st)) = calls st
       \<and> websocketServer (snd (updateDNAScore e addr st)) = None"
  using assms
  by (auto simp: updateDNAScore_def tryCatch_def updateDNAScore_try_def andThen_def
      queryRead_def queryWrite_def logMsg_def callUserUpdate_def callLeaderboardUpdate_def
      checkLeaderboardChange_def
      split: prod.splits sum.splits list.splits option.splits)

subsection \<open>Exceptions of processSwap\<close>

lemma stats_row_exists:
  "selectUserStats addr
     (updateUserStats e addr usd (insertUserAction e row (insertUserStats e addr d))) \<noteq> []"
proof -
  have a: "list_ex (\<lambda>r. us_address r = addr) (user_stats (insertUserStats e addr d))"
    by (simp add: insertUserStats_def list_ex_iff)
  have b: "user_stats (insertUserAction e row d') = user_stats d'" for d'
    by (simp add: insertUserAction_def)
  have c0: "map us_address (user_stats (updateUserStats e addr usd d')) = map us_address (user_stats d')" for d'
    by (cases usd) (simp_all add: updateUserStats_def)
  have c1: "list_ex (\<lambda>r. us_address r = addr) rs = (addr \<in> set (map us_address rs))" for rs
    by (auto simp: list_ex_iff)
  have c: "list_ex (\<lambda>r. us_address r = addr) (user_stats (updateUserStats e addr usd d'))
           = list_ex (\<lambda>r. us_address r = addr) (user_stats d')" for d'
    unfolding c1 c0 ..
  have "list_ex (\<lambda>r. us_address r = addr)
      (user_stats (updateUserStats e addr usd (insertUserAction e row (insertUserStats e addr d))))"
    using a by (simp add: b c)
  then show ?thesis
    by (auto simp: selectUserStats_def list_ex_iff filter_empty_conv)
qed

lemma updateDNAScore_returns:
  assumes "fst (updateDNAScore e addr st) = Inr u" and "selectUserStats addr (db st) \<noteq> []"
  shows "\<not> fails e SelectActiveDays \<and> \<not> fails e SelectFirstAction
       \<and> \<not> fails e SelectUserStats \<and> \<not> fails e UpdateDnaScore"
  using assms
  by (auto simp: updateDNAScore_def tryCatch_def updateDNAScore_try_def andThen_def
      queryRead_def queryWrite_def split: if_splits prod.splits sum.splits list.splits)

lemma swapTransaction_returns:
  assumes "fst (swapTransaction e ev pid addr a0 a1 usd st) = Inr u"
  shows "\<not> fails e InsertUser \<and> \<not> fails e InsertUserStats \<and> \<not> fails e InsertUserAction
       \<and> \<not> fails e UpdateUserStats \<and> \<not> fails e SelectActiveDays \<and> \<not> fails e SelectFirstAction
       \<and> \<not> fails e SelectUserStats \<and> \<not> fails e UpdateDnaScore"
proof -
  let ?row = "\<lparr>ua_address = addr, protocol_version = ''v4'', action_type = ''swap'',
                     pool_id = pid, amount0 = a0, amount1 = a1, amount_usd = usd,
                     tx_hash = transactionHash ev, block_number = blockNumber ev,
                     ua_timestamp = now e\<rparr>"
  let ?d = "updateUserStats e addr usd (insertUserAction e ?row (insertUserStats e addr (insertUser addr (db st))))"
  from assms have w: "\<not> fails e InsertUser \<and> \<not> fails e InsertUserStats
      \<and> \<not> fails e InsertUserAction \<and> \<not> fails e UpdateUserStats"
    by (auto simp: swapTransaction_def andThen_def queryWrite_def split: if_splits)
  with assms have "fst (updateDNAScore e addr (st\<lparr>db := ?d\<rparr>)) = Inr u"
    by (simp add: swapTransaction_def andThen_def queryWrite_def)
  from updateDNAScore_returns [OF this] stats_row_exists [of addr e usd ?row "insertUser addr (db st)"]
  show ?thesis using w by simp
qed

lemma withTransaction_returns:
  assumes "fst (withTransaction e (swapTransaction e ev pid addr a0 a1 usd) st) = Inr u"
  shows "\<not> list_ex (fails e) propagatingStmts"
proof -
  from assms have bc: "\<not> fails e Begin" "\<not> fails e Commit"
    and body: "fst (swapTransaction e ev pid addr a0 a1 usd st) = Inr u"
    by (auto simp: withTransaction_def split: if_splits prod.splits sum.splits)
  from swapTransaction_returns [OF body] bc show ?thesis
    by (simp add: propagatingStmts_def)
qed

text \<open>
  With a score service that does not throw, a transaction ends with the exception of its
  first failing statement among \<open>propagatingStmts\<close>, and returns when none of them
  fails; the rank query has no part in this.
\<close>

lemma updateDNAScore_result:
  assumes "\<forall>r d t. \<not> isl (calculateScore e r d t)"
    and "selectUserStats addr (db st) \<noteq> []"
  shows "fst (updateDNAScore e addr st) =
     (case find (fails e) [SelectActiveDays, SelectFirstAction, SelectUserStats, UpdateDnaScore] of
        Some s \<Rightarrow> Inl (QueryFailed s) | None \<Rightarrow> Inr ())"
proof -
  have score: "\<exists>sc. calculateScore e r d t = Inr sc" for r d t
    using assms(1) [rule_format, of r d t] by (cases "calculateScore e r d t") auto
  obtain userStats rest where rows: "selectUserStats addr (db st) = userStats # rest"
    using assms(2) by (cases "selectUserStats addr (db st)") auto
  obtain sc where sc: "calculateScore e userStats (selectActiveDays addr (db st))
           (case selectFirstAction addr (db st) of
              Some t \<Rightarrow> (now e - t) div msPerDay | None \<Rightarrow> 0) = Inr sc"
    using score by blast
  have chk: "r = Inr None" if "checkLeaderboardChange e addr s = (r, s')" for r s s'
    using that checkLeaderboardChange_null(1) [of e addr s] by simp
  show ?thesis
    using rows sc
    by (auto simp: updateDNAScore_def tryCatch_def updateDNAScore_try_def andThen_def
        queryRead_def queryWrite_def split: prod.splits sum.splits option.splits dest!: chk)
qed

lemma swapTransaction_result:
  assumes "\<forall>r d t. \<not> isl (calculateScore e r d t)"
  shows "fst (swapTransaction e ev pid addr a0 a1 usd st) =
     (case find (fails e) [InsertUser, InsertUserStats, InsertUserAction, UpdateUserStats,
                           SelectActiveDays, SelectFirstAction, SelectUserStats, UpdateDnaScore] of
        Some s \<Rightarrow> Inl (QueryFailed s) | None \<Rightarrow> Inr ())"
proof -
  let ?row = "\<lparr>ua_address = addr, protocol_version = ''v4'', action_type = ''swap'',
                     pool_id = pid, amount0 = a0, amount1 = a1, amount_usd = usd,
                     tx_hash = transactionHash ev, block_number = blockNumber ev,
                     ua_timestamp = now e\<rparr>"
  let ?d = "updateUserStats e addr usd (insertUserAction e ?row (insertUserStats e addr (insertUser addr (db st))))"
  have rows: "selectUserStats addr (db (st\<lparr>db := ?d\<rparr>)) \<noteq> []"
    using stats_row_exists [of addr e usd ?row "insertUser addr (db st)"] by simp
  show ?thesis
    using updateDNAScore_result [OF assms rows]
    by (simp add: swapTransaction_def andThen_def queryWrite_def)
qed

lemma find_app:
  "find P (xs @ ys) = (case find P xs of None \<Rightarrow> find P ys | Some x \<Rightarrow> Some x)"
  by (induction xs) simp_all

lemma find_cons_app:
  "find P (b # (xs @ ys)) =
     (if P b then Some b else case find P xs of None \<Rightarrow> find P ys | Some x \<Rightarrow> Some x)"
  by (simp add: find_app)

lemma withTransaction_result:
  assumes "\<forall>r d t. \<not> isl (calculateScore e r d t)"
  shows "fst (withTransaction e (swapTransaction e ev pid addr a0 a1 usd) st) =
     (case find (fails e) propagatingStmts of
        Some s \<Rightarrow> Inl (QueryFailed s) | None \<Rightarrow> Inr ())"
proof -
  define body where "body = [InsertUser, InsertUserStats, InsertUserAction, UpdateUserStats,
                SelectActiveDays, SelectFirstAction, SelectUserStats, UpdateDnaScore]"
  define F where "F = find (fails e) body"
  have ps: "propagatingStmts = Begin # (body @ [Commit])"
    by (simp add: propagatingStmts_def body_def)
  have split: "find (fails e) propagatingStmts =
      (if fails e Begin then Some Begin
       else case F of None \<Rightarrow> find (fails e) [Commit] | Some s \<Rightarrow> Some s)"
    by (simp only: ps find_cons_app F_def)
  obtain r st1 where run: "swapTransaction e ev pid addr a0 a1 usd st = (r, st1)"
    by (cases "swapTransaction e ev pid addr a0 a1 usd st")
  with swapTransaction_result [OF assms, of ev pid addr a0 a1 usd st]
  have r: "r = (case F of Some s \<Rightarrow> Inl (QueryFailed s) | None \<Rightarrow> Inr ())"
    by (simp add: F_def body_def)
  show ?thesis
    unfolding split
    by (cases F) (simp_all add: withTransaction_def run r)
qed

lemma processSwap_fst:
  "fst (processSwap e ev pid sender a0 a1 st)
     = fst (processSwap_try e ev pid (toLowerCase sender) a0 a1 st)"
  by (simp add: processSwap_def tryCatch_def split: prod.splits sum.splits)

lemma processSwap_logged:
  assumes "fst (processSwap e ev pid sender a0 a1 st) = Inl err"
  shows "logs (snd (processSwap e ev pid sender a0 a1 st)) \<noteq> []
       \<and> last (logs (snd (processSwap e ev pid sender a0 a1 st)))
           = ErrorProcessingSwap (toLowerCase sender) err"
  using assms
  by (auto simp: processSwap_def tryCatch_def logMsg_def split: prod.splits sum.splits)

lemma processSwap_no_pool:
  assumes "fst (getPoolInfo e pid st) = None"
  shows "fst (processSwap e ev pid sender a0 a1 st) = Inr ()"
  using assms
  by (auto simp: processSwap_fst processSwap_try_def split: prod.splits)

lemma processSwap_throws:
  assumes "fst (getPoolInfo e pid st) \<noteq> None" and "list_ex (fails e) propagatingStmts"
  shows "isl (fst (processSwap e ev pid sender a0 a1 st))"
proof (rule ccontr)
  let ?addr = "toLowerCase sender"
  assume "\<not> isl (fst (processSwap e ev pid sender a0 a1 st))"
  then have ok: "fst (processSwap_try e ev pid ?addr a0 a1 st) = Inr ()"
    by (cases "fst (processSwap_try e ev pid ?addr a0 a1 st)") (auto simp: processSwap_fst)
  with assms(1) have "\<exists>usd st4.
      fst (withTransaction e (swapTransaction e ev pid ?addr a0 a1 usd) st4) = Inr ()"
    by (auto simp: processSwap_try_def andThen_def
        split: prod.splits sum.splits option.splits; metis fst_conv)
  then obtain usd st4 where
    "fst (withTransaction e (swapTransaction e ev pid ?addr a0 a1 usd) st4) = Inr ()"
    by blast
  from withTransaction_returns [OF this] assms(2) show False by simp
qed

lemma processSwap_first_failure:
  assumes pool: "fst (getPoolInfo e pid st) \<noteq> None"
    and price: "\<forall>tok sy. \<not> isl (getPrice e tok sy)"
    and score: "\<forall>r d t. \<not> isl (calculateScore e r d t)"
  shows "fst (processSwap e ev pid sender a0 a1 st) =
     (case find (fails e) propagatingStmts of
        Some s \<Rightarrow> Inl (QueryFailed s) | None \<Rightarrow> Inr ())"
proof -
  define R where "R = (case find (fails e) propagatingStmts of
        Some s \<Rightarrow> Inl (QueryFailed s) | None \<Rightarrow> (Inr () :: error + unit))"
  have R_cases: "(\<exists>s. R = Inl (QueryFailed s)) \<or> R = Inr ()"
    by (cases "find (fails e) propagatingStmts") (simp_all add: R_def)
  have tx: "r = R"
    if "withTransaction e (swapTransaction e ev pid a a0 a1 usd) s = (r, s')" for a usd s r s'
    using withTransaction_result [OF score, of ev pid a a0 a1 usd s] that by (simp add: R_def)
  have no_throw: "False" if "getPrice e tok sy = Inl x" for tok sy x
    using price [rule_format, of tok sy] that by simp
  have "fst (processSwap_try e ev pid (toLowerCase sender) a0 a1 st) = R"
    using pool R_cases
    by (auto simp: processSwap_try_def andThen_def
        split: prod.splits sum.splits option.splits dest!: tx no_throw)
  then show ?thesis by (simp add: processSwap_fst R_def)
qed

text \<open>
  Claim C5, as stated, fails: when the first INSERT of the transaction fails, the caller
  of \<open>processSwap\<close> receives that error.
\<close>

theorem processSwap_rethrows_counterexample:
  "fst (processSwap ex_insert_fails ex_event ''0xpool'' ''0xB'' 5 (-3) ex_attached)
     = Inl (QueryFailed InsertUser)"
  by code_simp

text \<open>
  Claim C5, amended. \<open>processSwap\<close> logs a failure and then rethrows it. Whenever it ends
  with an exception, the last log entry is the error entry for the lower-cased sender
  carrying that same exception. With the pool known, a failure of BEGIN, of COMMIT or of
  any statement of the transaction other than the rank query makes it end with an
  exception; if moreover the price feed and the score service do not throw, the exception
  is exactly that of the first such statement that fails, and the call returns normally
  when none of them fails. A failure of the rank query is caught inside
  \<open>checkLeaderboardChange\<close> and does not make \<open>processSwap\<close> throw. When the pool info
  is missing the call returns normally.
\<close>

theorem processSwap_logs_then_rethrows:
  "(\<forall>err. fst (processSwap e ev pid sender a0 a1 st) = Inl err \<longrightarrow>
       logs (snd (processSwap e ev pid sender a0 a1 st)) \<noteq> []
     \<and> last (logs (snd (processSwap e ev pid sender a0 a1 st)))
         = ErrorProcessingSwap (toLowerCase sender) err)
   \<and> (fst (getPoolInfo e pid st) \<noteq> None \<and> list_ex (fails e) propagatingStmts \<longrightarrow>
        isl (fst (processSwap e ev pid sender a0 a1 st)))
   \<and> (fst (getPoolInfo e pid st) \<noteq> None
        \<and> (\<forall>tok sy. \<not> isl (getPrice e tok sy))
        \<and> (\<forall>r d t. \<not> isl (calculateScore e r d t)) \<longrightarrow>
        fst (processSwap e ev pid sender a0 a1 st) =
          (case find (fails e) propagatingStmts of
             Some s \<Rightarrow> Inl (QueryFailed s) | None \<Rightarrow> Inr ()))
   \<and> (fst (getPoolInfo e pid st) = None \<longrightarrow>
        fst (processSwap e ev pid sender a0 a1 st) = Inr ())"
  using processSwap_logged [of e ev pid sender a0 a1 st]
    processSwap_throws [of e pid st ev sender a0 a1]
    processSwap_first_failure [of e pid st ev sender a0 a1]
    processSwap_no_pool [of e pid st ev sender a0 a1]
  by blast

theorem processSwap_logs_then_rethrows_witness:
  "fst (processSwap ex_insert_fails ex_event ''0xpool'' ''0xB'' 5 (-3) ex_attached)
     = Inl (QueryFailed InsertUser)
   \<and> last (logs (snd (processSwap ex_insert_fails ex_event ''0xpool'' ''0xB'' 5 (-3) ex_attached)))
     = ErrorProcessingSwap ''0xb'' (QueryFailed InsertUser)
   \<and> fst (processSwap ex_ranks_fail ex_event ''0xpool'' ''0xB'' 5 (-3) ex_attached) = Inr ()"
proof -
  have pool: "fst (getPoolInfo ex_insert_fails ''0xpool'' ex_attached) \<noteq> None"
    "fst (getPoolInfo ex_ranks_fail ''0xpool'' ex_attached) \<noteq> None"
    by code_simp+
  have quiet: "\<forall>tok sy. \<not> isl (getPrice ex_insert_fails tok sy)"
    "\<forall>r d t. \<not> isl (calculateScore ex_insert_fails r d t)"
    "\<forall>tok sy. \<not> isl (getPrice ex_ranks_fail tok sy)"
    "\<forall>r d t. \<not> isl (calculateScore ex_ranks_fail r d t)"
    by (simp_all add: ex_insert_fails_def ex_ranks_fail_def ex_env_def)
  have first: "find (fails ex_insert_fails) propagatingStmts = Some InsertUser"
    "find (fails ex_ranks_fail) propagatingStmts = None"
    "list_ex (fails ex_insert_fails) propagatingStmts"
    by (simp_all add: propagatingStmts_def ex_insert_fails_def ex_ranks_fail_def ex_env_def)
  have low: "toLowerCase ''0xB'' = ''0xb''" by code_simp
  from processSwap_logs_then_rethrows
    [of ex_insert_fails ex_event "''0xpool''" "''0xB''" 5 "-3" ex_attached] pool quiet first low
  have a: "fst (processSwap ex_insert_fails ex_event ''0xpool'' ''0xB'' 5 (-3) ex_attached)
     = Inl (QueryFailed InsertUser)
   \<and> last (logs (snd (processSwap ex_insert_fails ex_event ''0xpool'' ''0xB'' 5 (-3) ex_attached)))
     = ErrorProcessingSwap ''0xb'' (QueryFailed InsertUser)"
    by simp
  from processSwap_logs_then_rethrows
    [of ex_ranks_fail ex_event "''0xpool''" "''0xB''" 5 "-3" ex_attached] pool quiet first
  have b: "fst (processSwap ex_ranks_fail ex_event ''0xpool'' ''0xB'' 5 (-3) ex_attached) = Inr ()"
    by simp
  from a b show ?thesis by blast
qed

subsection \<open>Hard stop on a persistence failure\<close>

text \<open>
  A failure of BEGIN or of any statement up to and including the score update stops the
  pipeline: \<open>processSwap\<close> makes no call on the websocket server, the server state is
  untouched and the tables are as before.
\<close>

lemma outside_simps:
  "outside (logMsg l st) = outside st"
  "outside (st\<lparr>db := d\<rparr>) = outside st"
  "outside (snd (getPoolInfo e pid st)) = outside st"
  "outside (snd (getTokenSymbol e tok st)) = outside st"
  by (auto simp: outside_def logMsg_def getPoolInfo_def getTokenSymbol_def
      split: sum.splits option.splits)

lemma updateDNAScore_hard_stop:
  assumes "fails e SelectActiveDays \<or> fails e SelectFirstAction
         \<or> fails e SelectUserStats \<or> fails e UpdateDnaScore"
  shows "outside (snd (updateDNAScore e addr st)) = outside st"
  using assms
  by (auto simp: updateDNAScore_def tryCatch_def updateDNAScore_try_def andThen_def
      queryRead_def queryWrite_def outside_simps split: prod.splits sum.splits list.splits)

lemma swapTransaction_hard_stop:
  assumes "list_ex (fails e) [InsertUser, InsertUserStats, InsertUserAction, UpdateUserStats,
      SelectActiveDays, SelectFirstAction, SelectUserStats, UpdateDnaScore]"
  shows "outside (snd (swapTransaction e ev pid addr a0 a1 usd st)) = outside st"
proof (cases "fails e InsertUser \<or> fails e InsertUserStats \<or> fails e InsertUserAction
      \<or> fails e UpdateUserStats")
  case True
  then show ?thesis
    by (auto simp: swapTransaction_def andThen_def queryWrite_def outside_simps)
next
  case False
  with assms have "fails e SelectActiveDays \<or> fails e SelectFirstAction
         \<or> fails e SelectUserStats \<or> fails e UpdateDnaScore" by auto
  from updateDNAScore_hard_stop [OF this] False show ?thesis
    by (simp add: swapTransaction_def andThen_def queryWrite_def outside_simps)
qed

lemma withTransaction_hard_stop:
  assumes "list_ex (fails e) stmtsBeforeBroadcast"
  shows "\<exists>err st'. withTransaction e (swapTransaction e ev pid addr a0 a1 usd) st = (Inl err, st')
           \<and> outside st' = outside st \<and> db st' = db st"
proof (cases "fails e Begin")
  case True
  then show ?thesis by (simp add: withTransaction_def)
next
  case False
  with assms have rest: "list_ex (fails e) [InsertUser, InsertUserStats, InsertUserAction,
      UpdateUserStats, SelectActiveDays, SelectFirstAction, SelectUserStats, UpdateDnaScore]"
    by (simp add: stmtsBeforeBroadcast_def)
  obtain r st1 where run: "swapTransaction e ev pid addr a0 a1 usd st = (r, st1)"
    by (cases "swapTransaction e ev pid addr a0 a1 usd st")
  have "\<exists>err. r = Inl err"
  proof (cases r)
    case (Inr u)
    with run swapTransaction_returns [of e ev pid addr a0 a1 usd st u] rest show ?thesis by auto
  qed simp
  moreover from swapTransaction_hard_stop [OF rest, of ev pid addr a0 a1 usd st] run
  have "outside st1 = outside st" by simp
  ultimately show ?thesis using False run
    by (auto simp: withTransaction_def outside_simps)
qed

lemma db_kept:
  "db (logMsg l st) = db st"
  "db (snd (getPoolInfo e pid st)) = db st"
  "db (snd (getTokenSymbol e tok st)) = db st"
  by (auto simp: logMsg_def getPoolInfo_def getTokenSymbol_def split: sum.splits option.splits)

lemma withTransaction_hard_stop_cases:
  assumes "list_ex (fails e) stmtsBeforeBroadcast"
    and "withTransaction e (swapTransaction e ev pid addr a0 a1 usd) st = (r, st')"
  shows "(\<exists>err. r = Inl err) \<and> outside st' = outside st \<and> db st' = db st"
  using withTransaction_hard_stop [OF assms(1), of ev pid addr a0 a1 usd st] assms(2) by auto

lemma processSwap_hard_stop:
  assumes "list_ex (fails e) stmtsBeforeBroadcast"
  shows "outside (snd (processSwap e ev pid sender a0 a1 st)) = outside st
       \<and> db (snd (processSwap e ev pid sender a0 a1 st)) = db st"
proof -
  obtain pi st1 where gp: "getPoolInfo e pid st = (pi, st1)"
    by (cases "getPoolInfo e pid st")
  have k1: "outside st1 = outside st" "db st1 = db st"
    using outside_simps(3) [of e pid st] db_kept(2) [of e pid st] gp by simp_all
  show ?thesis
  proof (cases pi)
    case None
    with gp k1 show ?thesis
      by (simp add: processSwap_def tryCatch_def processSwap_try_def outside_simps db_kept)
  next
    case (Some poolInfo)
    obtain s0 st2 where g0: "getTokenSymbol e (token0 poolInfo) st1 = (s0, st2)"
      by (cases "getTokenSymbol e (token0 poolInfo) st1")
    obtain s1 st3 where g1: "getTokenSymbol e (token1 poolInfo) st2 = (s1, st3)"
      by (cases "getTokenSymbol e (token1 poolInfo) st2")
    have k3: "outside st3 = outside st" "db st3 = db st"
      using outside_simps(4) [of e "token0 poolInfo" st1] db_kept(3) [of e "token0 poolInfo" st1]
        outside_simps(4) [of e "token1 poolInfo" st2] db_kept(3) [of e "token1 poolInfo" st2]
        g0 g1 k1 by simp_all
    show ?thesis
      using gp Some g0 g1 k3
      by (auto simp: processSwap_def tryCatch_def processSwap_try_def andThen_def
          outside_simps db_kept
          split: sum.splits option.splits prod.splits
          dest!: withTransaction_hard_stop_cases [OF assms])
  qed
qed

text \<open>
  Claim C8, evaluated on the program. \<open>broadcastUserUpdate\<close> is called inside the
  transaction callback, before COMMIT, while \<open>broadcastUserAction\<close> waits for the
  transaction to return. When COMMIT fails, \<open>processSwap\<close> throws and the tables are
  rolled back, yet the \<open>user_update\<close> with the score that was never stored has already
  been broadcast and has reached the two clients whose \<open>send\<close> works.
\<close>

theorem user_update_sent_before_commit:
  "fst (processSwap ex_commit_fails ex_event ''0xpool'' ''0xB'' 5 (-3) ex_attached)
     = Inl (QueryFailed Commit)
   \<and> db (snd (processSwap ex_commit_fails ex_event ''0xpool'' ''0xB'' 5 (-3) ex_attached))
     = db ex_attached
   \<and> calls (snd (processSwap ex_commit_fails ex_event ''0xpool'' ''0xB'' 5 (-3) ex_attached))
     = [CallUserUpdate \<lparr>uu_address = ''0xb'', uu_dnaScore = 60, uu_tier = ''Expert'',
                         uu_timestamp = 259200000\<rparr>]
   \<and> deliveredTo ex_attached = [[], [], []]
   \<and> deliveredTo (snd (processSwap ex_commit_fails ex_event ''0xpool'' ''0xB'' 5 (-3) ex_attached))
     = [[UserUpdate ''0xb'' 60 ''Expert'' 259200000], [],
        [UserUpdate ''0xb'' 60 ''Expert'' 259200000]]"
  by code_simp

subsection \<open>The rank query\<close>

lemma distinct_map_insort_key:
  "distinct (map g (insort_key f x xs)) = (g x \<notin> g ` set xs \<and> distinct (map g xs))"
  by (induction xs) (auto simp: set_insort_key)

lemma distinct_map_sort_key:
  "distinct (map g (sort_key f xs)) = distinct (map g xs)"
  by (induction xs) (simp_all add: distinct_map_insort_key)

lemma rankedRows_props:
  "set (rankedRows tbl) = {r \<in> set tbl. 0 < us_dna_score r}"
  "sorted (map (\<lambda>r. - us_dna_score r) (rankedRows tbl))"
  "distinct (map us_address tbl) \<Longrightarrow> distinct (map us_address (rankedRows tbl))"
  by (auto simp: rankedRows_def distinct_map_sort_key distinct_map_filter)

lemma selectRanks_nth:
  assumes "i < length (rankedRows (user_stats d))"
  shows "selectRanks d ! i = \<lparr>rank = Suc i, rr_address = us_address (rankedRows (user_stats d) ! i)\<rparr>"
  using assms by (simp add: selectRanks_def nth_enumerate_eq)

lemma length_selectRanks: "length (selectRanks d) = length (rankedRows (user_stats d))"
  by (simp add: selectRanks_def)

lemma currentRankOf_nth:
  assumes "distinct (map us_address (user_stats d))"
    and "i < length (rankedRows (user_stats d))"
  shows "currentRankOf (selectRanks d) (us_address (rankedRows (user_stats d) ! i)) = Some (Suc i)"
proof -
  let ?rs = "rankedRows (user_stats d)"
  have dist: "distinct (map us_address ?rs)"
    using assms(1) by (rule rankedRows_props(3))
  have no_earlier: "us_address (?rs ! j) \<noteq> us_address (?rs ! i)" if "j < i" for j
  proof -
    from that assms(2) have "j < length (map us_address ?rs)" "i < length (map us_address ?rs)" "j \<noteq> i"
      by simp_all
    with dist have "map us_address ?rs ! j \<noteq> map us_address ?rs ! i"
      by (simp only: nth_eq_iff_index_eq) simp
    with that assms(2) show ?thesis by simp
  qed
  have "find (\<lambda>r. rr_address r = us_address (?rs ! i)) (selectRanks d) = Some (selectRanks d ! i)"
    unfolding find_Some_iff
  proof (intro exI [of _ i] conjI allI impI)
    show "i < length (selectRanks d)" using assms(2) by (simp add: length_selectRanks)
    show "rr_address (selectRanks d ! i) = us_address (?rs ! i)"
      using assms(2) by (simp add: selectRanks_nth)
    show "selectRanks d ! i = selectRanks d ! i" ..
    fix j assume "j < i"
    with assms(2) no_earlier [of j] show "rr_address (selectRanks d ! j) \<noteq> us_address (?rs ! i)"
      by (simp add: selectRanks_nth)
  qed
  then show ?thesis using assms(2) by (simp add: currentRankOf_def selectRanks_nth)
qed

text \<open>
  Claim C2, as stated, fails: \<open>0xa\<close> and \<open>0xb\<close> both have score 72 and \<open>0xa\<close> is the lower
  address, but the query, which orders by the score only, ranks \<open>0xb\<close> first because the
  table delivers it first.
\<close>

theorem equal_scores_not_by_address_counterexample:
  "us_dna_score (ex_stats ''0xa'' 72) = us_dna_score (ex_stats ''0xb'' 72)
   \<and> ''0xa'' < ''0xb''
   \<and> currentRankOf (selectRanks ex_tie_db) ''0xa'' = Some 2
   \<and> currentRankOf (selectRanks ex_tie_db) ''0xb'' = Some 1"
  by code_simp

text \<open>
  Claim C2, amended. The rank order is decided by the score alone: of two users with
  positive scores, the one with the strictly higher score has the strictly lower 1-based
  rank number, and both ranks lie between 1 and the number of ranked users. The address
  takes no part in the order.
\<close>

theorem higher_score_better_rank:
  assumes "distinct (map us_address (user_stats d))"
    and "r1 \<in> set (user_stats d)" and "r2 \<in> set (user_stats d)"
    and "us_dna_score r2 < us_dna_score r1" and "0 < us_dna_score r2"
  shows "\<exists>k1 k2. currentRankOf (selectRanks d) (us_address r1) = Some k1
           \<and> currentRankOf (selectRanks d) (us_address r2) = Some k2
           \<and> 1 \<le> k1 \<and> k1 < k2 \<and> k2 \<le> length (selectRanks d)"
proof -
  let ?rs = "rankedRows (user_stats d)"
  from assms have "r1 \<in> set ?rs" "r2 \<in> set ?rs"
    by (simp_all add: rankedRows_props(1))
  then obtain i j where i: "i < length ?rs" "?rs ! i = r1" and j: "j < length ?rs" "?rs ! j = r2"
    by (auto simp: in_set_conv_nth)
  have "i < j"
  proof (rule ccontr)
    assume "\<not> i < j"
    then have "j \<le> i" by simp
    with i(1) rankedRows_props(2) [of "user_stats d"]
    have "map (\<lambda>r. - us_dna_score r) ?rs ! j \<le> map (\<lambda>r. - us_dna_score r) ?rs ! i"
      by (intro sorted_nth_mono) simp_all
    with i j assms(4) show False by simp
  qed
  moreover have "currentRankOf (selectRanks d) (us_address r1) = Some (Suc i)"
    using currentRankOf_nth [OF assms(1) i(1)] i(2) by simp
  moreover have "currentRankOf (selectRanks d) (us_address r2) = Some (Suc j)"
    using currentRankOf_nth [OF assms(1) j(1)] j(2) by simp
  ultimately show ?thesis using j(1) by (simp add: length_selectRanks)
qed

theorem higher_score_better_rank_witness:
  "currentRankOf (selectRanks ex_db) ''0xa'' = Some 1
   \<and> currentRankOf (selectRanks ex_db) ''0xb'' = Some 2"
proof -
  have h1: "distinct (map us_address (user_stats ex_db))" by code_simp
  have h2: "ex_stats ''0xa'' 50 \<in> set (user_stats ex_db)" "ex_stats ''0xb'' 40 \<in> set (user_stats ex_db)"
    by (simp_all add: ex_db_def)
  have h3: "us_dna_score (ex_stats ''0xb'' 40) < us_dna_score (ex_stats ''0xa'' 50)"
    "0 < us_dna_score (ex_stats ''0xb'' 40)"
    by (simp_all add: ex_stats_def)
  have h4: "length (selectRanks ex_db) = 2" "us_address (ex_stats ''0xa'' 50) = ''0xa''"
    "us_address (ex_stats ''0xb'' 40) = ''0xb''"
    by code_simp+
  from higher_score_better_rank [OF h1 h2 h3] h4
  obtain k1 k2 where k: "currentRankOf (selectRanks ex_db) ''0xa'' = Some k1"
    "currentRankOf (selectRanks ex_db) ''0xb'' = Some k2" "1 \<le> k1" "k1 < k2" "k2 \<le> 2"
    by auto
  then have "k1 = 1" "k2 = 2" by simp_all
  with k show ?thesis by simp
qed

end
